theory Spec2Isabelle
  imports Main "HOL-Library.Word" "HOL-Library.Monad_Syntax"
    "HOL-Library.Char_ord" "HOL-Library.List_Lexorder"
begin

section \<open>The graph package\<close>

text \<open>
  The three structs of package \<open>graph\<close>. A Go \<open>int\<close> is a 64-bit machine integer, so
  the revision counters are \<open>64 word\<close> and \<open>Revision++\<close> is word addition. A
  \<open>map[string]string\<close> property bag is an association list, \<open>None\<close> for the nil map;
  no function of the program reads or iterates over a property bag, it is only stored.
  The mutex of \<open>Graph\<close> is left out: every operation below is one critical section.
\<close>

type_synonym props = "(string \<times> string) list option"

record EntityKey =
  Name :: string
  Namespace :: string
  Type :: string

record GraphNode =
  Key :: EntityKey
  NodeProperties :: props
  NodeRevision :: "64 word"

record GraphRelationship =
  Source :: EntityKey
  Target :: EntityKey
  RelationshipType :: string
  Properties :: props
  Revision :: "64 word"

record Graph =
  Nodes :: "GraphNode list"
  Relationships :: "GraphRelationship list"
  revision :: "64 word"

definition NewGraph :: Graph where
  "NewGraph = \<lparr>Nodes = [], Relationships = [], revision = 1\<rparr>"

text \<open>
  The field-by-field comparison of two keys that every loop of the package writes out:
  \<open>a.Name == b.Name && a.Namespace == b.Namespace && a.Type == b.Type\<close>.
\<close>

definition sameKey :: "EntityKey \<Rightarrow> EntityKey \<Rightarrow> bool" where
  "sameKey a b \<longleftrightarrow> Name a = Name b \<and> Namespace a = Namespace b \<and> Type a = Type b"

text \<open>The condition of the loops of \<open>AddRelationship\<close> and \<open>RemoveRelationship\<close>.\<close>

definition relMatches :: "GraphRelationship \<Rightarrow> EntityKey \<Rightarrow> EntityKey \<Rightarrow> string \<Rightarrow> bool" where
  "relMatches rel source target relationshipType \<longleftrightarrow>
     sameKey (Source rel) source \<and> sameKey (Target rel) target \<and>
     RelationshipType rel = relationshipType"

text \<open>
  \<open>AddRelationship\<close>: the loop looks for the first relationship with the same source,
  target and type; on a hit it overwrites the properties, increments the relationship's
  revision and returns (\<open>Some\<close> of the updated slice). When the loop falls through
  (\<open>None\<close>) a new relationship with revision 1 is appended.
\<close>

fun addRelLoop ::
  "GraphRelationship list \<Rightarrow> EntityKey \<Rightarrow> EntityKey \<Rightarrow> string \<Rightarrow> props \<Rightarrow>
   GraphRelationship list option" where
  "addRelLoop [] source target relationshipType properties = None"
| "addRelLoop (rel # rels) source target relationshipType properties =
     (if relMatches rel source target relationshipType
      then Some (rel\<lparr>Properties := properties, Revision := Revision rel + 1\<rparr> # rels)
      else map_option ((#) rel) (addRelLoop rels source target relationshipType properties))"

definition AddRelationship ::
  "Graph \<Rightarrow> EntityKey \<Rightarrow> EntityKey \<Rightarrow> string \<Rightarrow> props \<Rightarrow> Graph" where
  "AddRelationship g source target relationshipType properties =
     (case addRelLoop (Relationships g) source target relationshipType properties of
        Some rels \<Rightarrow> g\<lparr>Relationships := rels, revision := revision g + 1\<rparr>
      | None \<Rightarrow>
          g\<lparr>Relationships := Relationships g @
                [\<lparr>Source = source, Target = target, RelationshipType = relationshipType,
                  Properties = properties, Revision = 1\<rparr>],
            revision := revision g + 1\<rparr>)"

text \<open>
  \<open>RemoveRelationship\<close>: the loop deletes the first relationship that matches and
  returns; when none matches the graph is not touched at all.
\<close>

fun removeRelLoop ::
  "GraphRelationship list \<Rightarrow> EntityKey \<Rightarrow> EntityKey \<Rightarrow> string \<Rightarrow>
   GraphRelationship list option" where
  "removeRelLoop [] source target relationshipType = None"
| "removeRelLoop (rel # rels) source target relationshipType =
     (if relMatches rel source target relationshipType
      then Some rels
      else map_option ((#) rel) (removeRelLoop rels source target relationshipType))"

definition RemoveRelationship :: "Graph \<Rightarrow> EntityKey \<Rightarrow> EntityKey \<Rightarrow> string \<Rightarrow> Graph" where
  "RemoveRelationship g source target relationshipType =
     (case removeRelLoop (Relationships g) source target relationshipType of
        Some rels \<Rightarrow> g\<lparr>Relationships := rels, revision := revision g + 1\<rparr>
      | None \<Rightarrow> g)"

text \<open>The identity triple of a relationship: source, target and relationship type.\<close>

definition relIdentity :: "GraphRelationship \<Rightarrow> EntityKey \<times> EntityKey \<times> string" where
  "relIdentity rel = (Source rel, Target rel, RelationshipType rel)"

subsection \<open>Nodes\<close>

text \<open>
  The argument of \<open>AddNode\<close> and \<open>RemoveNode\<close> is an \<open>interface{}\<close>;
  \<open>objectToGraphNode\<close> switches on its dynamic type. The six pointer types it knows are the
  first six constructors, carrying the fields the function reads: \<open>Name\<close>, \<open>Namespace\<close>
  and the one field that becomes the property. \<open>Spec.Replicas\<close> is a pointer to an
  \<open>int32\<close>, \<open>None\<close> when nil. The \<open>Data\<close> of a ConfigMap is carried as the text
  \<open>fmt.Sprintf("%v", o.Data)\<close> renders, the formatting of a map being the library's.
  \<open>OtherObject\<close> is a value of any other dynamic type (a struct value, a map).
\<close>

datatype k8s_object =
    PodPtr string string string
  | ReplicaSetPtr string string "int option"
  | DeploymentPtr string string "int option"
  | NodePtr string string
  | ServicePtr string string string
  | ConfigMapPtr string string string
  | OtherObject

text \<open>\<open>fmt.Sprintf("%d", n)\<close>: the decimal digits, with a minus sign when negative.\<close>

fun decimal :: "nat \<Rightarrow> string" where
  "decimal n =
     (if n < 10 then [''0123456789'' ! n]
      else decimal (n div 10) @ [''0123456789'' ! (n mod 10)])"

declare decimal.simps [simp del]

definition sprintf_d :: "int \<Rightarrow> string" where
  "sprintf_d i = (if i < 0 then CHR ''-'' # decimal (nat (- i)) else decimal (nat i))"

text \<open>
  \<open>objectToGraphNode\<close>. The outer \<open>option\<close> is the panic of dereferencing a nil
  \<open>Spec.Replicas\<close>; the inner one is the nil result of the \<open>default\<close> case.
\<close>

definition mkNode :: "EntityKey \<Rightarrow> (string \<times> string) list \<Rightarrow> GraphNode" where
  "mkNode k properties = \<lparr>Key = k, NodeProperties = Some properties, NodeRevision = 1\<rparr>"

fun objectToGraphNode :: "k8s_object \<Rightarrow> GraphNode option option" where
  "objectToGraphNode (PodPtr name namespace phase) =
     Some (Some (mkNode \<lparr>Name = name, Namespace = namespace, Type = ''Pod''\<rparr>
                   [(''status'', phase)]))"
| "objectToGraphNode (ReplicaSetPtr name namespace replicas) =
     (case replicas of
        None \<Rightarrow> None
      | Some n \<Rightarrow>
          Some (Some (mkNode \<lparr>Name = name, Namespace = namespace, Type = ''ReplicaSet''\<rparr>
                        [(''replicas'', sprintf_d n)])))"
| "objectToGraphNode (DeploymentPtr name namespace replicas) =
     (case replicas of
        None \<Rightarrow> None
      | Some n \<Rightarrow>
          Some (Some (mkNode \<lparr>Name = name, Namespace = namespace, Type = ''Deployment''\<rparr>
                        [(''replicas'', sprintf_d n)])))"
| "objectToGraphNode (NodePtr name phase) =
     Some (Some (mkNode \<lparr>Name = name, Namespace = '''', Type = ''Node''\<rparr>
                   [(''status'', phase)]))"
| "objectToGraphNode (ServicePtr name namespace ty) =
     Some (Some (mkNode \<lparr>Name = name, Namespace = namespace, Type = ''Service''\<rparr>
                   [(''type'', ty)]))"
| "objectToGraphNode (ConfigMapPtr name namespace dataText) =
     Some (Some (mkNode \<lparr>Name = name, Namespace = namespace, Type = ''ConfigMap''\<rparr>
                   [(''data'', dataText)]))"
| "objectToGraphNode OtherObject = Some None"

text \<open>
  \<open>AddNode\<close>: the first node with the same key is overwritten in place, otherwise the
  node is appended. \<open>UpdateNode\<close> only calls \<open>AddNode\<close>.
\<close>

fun addNodeLoop :: "GraphNode list \<Rightarrow> GraphNode \<Rightarrow> GraphNode list option" where
  "addNodeLoop [] node = None"
| "addNodeLoop (n # ns) node =
     (if sameKey (Key n) (Key node) then Some (node # ns)
      else map_option ((#) n) (addNodeLoop ns node))"

definition AddNode :: "Graph \<Rightarrow> k8s_object \<Rightarrow> Graph option" where
  "AddNode g obj =
     (case objectToGraphNode obj of
        None \<Rightarrow> None
      | Some None \<Rightarrow> Some g
      | Some (Some node) \<Rightarrow>
          (case addNodeLoop (Nodes g) node of
             Some ns \<Rightarrow> Some (g\<lparr>Nodes := ns, revision := revision g + 1\<rparr>)
           | None \<Rightarrow> Some (g\<lparr>Nodes := Nodes g @ [node], revision := revision g + 1\<rparr>)))"

definition UpdateNode :: "Graph \<Rightarrow> k8s_object \<Rightarrow> Graph option" where
  "UpdateNode g obj = AddNode g obj"

text \<open>
  \<open>RemoveNode\<close>. The first loop deletes the first node with the key and then executes
  \<open>return\<close>, so the second loop, which deletes the relationships that have the key as
  source or target, is reached only when no node has the key. That second loop is
  \<open>for i := 0; i < len; i++\<close> with \<open>i--\<close> after each deletion, which visits every
  element once: \<open>removeIncident\<close>.
\<close>

fun removeNodeLoop :: "GraphNode list \<Rightarrow> GraphNode \<Rightarrow> GraphNode list option" where
  "removeNodeLoop [] node = None"
| "removeNodeLoop (n # ns) node =
     (if sameKey (Key n) (Key node) then Some ns
      else map_option ((#) n) (removeNodeLoop ns node))"

definition incident :: "GraphRelationship \<Rightarrow> EntityKey \<Rightarrow> bool" where
  "incident rel k \<longleftrightarrow> sameKey (Source rel) k \<or> sameKey (Target rel) k"

fun removeIncident :: "GraphRelationship list \<Rightarrow> EntityKey \<Rightarrow> GraphRelationship list" where
  "removeIncident [] k = []"
| "removeIncident (rel # rels) k =
     (if incident rel k then removeIncident rels k else rel # removeIncident rels k)"

definition RemoveNode :: "Graph \<Rightarrow> k8s_object \<Rightarrow> Graph option" where
  "RemoveNode g obj =
     (case objectToGraphNode obj of
        None \<Rightarrow> None
      | Some None \<Rightarrow> Some g
      | Some (Some node) \<Rightarrow>
          (case removeNodeLoop (Nodes g) node of
             Some ns \<Rightarrow> Some (g\<lparr>Nodes := ns, revision := revision g + 1\<rparr>)
           | None \<Rightarrow>
               Some (g\<lparr>Relationships := removeIncident (Relationships g) (Key node)\<rparr>)))"

section \<open>The main package\<close>

subsection \<open>Unstructured objects\<close>

text \<open>
  The watch loop converts every object to a \<open>map[string]interface{}\<close> and reads it with
  type assertions. \<open>json\<close> is the dynamic value of such an \<open>interface{}\<close>: nil, a
  bool, a number, a string, a \<open>[]interface{}\<close> or a \<open>map[string]interface{}\<close>. A Go
  map is an association list with distinct keys.
\<close>

datatype json =
    JNull
  | JBool bool
  | JNum int
  | JStr string
  | JArr "json list"
  | JObj "(string \<times> json) list"

type_synonym object = "(string \<times> json) list"

text \<open>\<open>m[k]\<close> on a map yields nil for a missing key.\<close>

definition index :: "object \<Rightarrow> string \<Rightarrow> json" where
  "index m k = (case map_of m k of None \<Rightarrow> JNull | Some v \<Rightarrow> v)"

text \<open>
  Type assertions. In the one-result form \<open>x.(T)\<close> a failure panics and the process
  dies: there \<open>None\<close> is propagated by the \<open>do\<close> blocks below. In the two-result form
  \<open>v, ok := x.(T)\<close> the same \<open>None\<close> is \<open>ok = false\<close> and is examined by a \<open>case\<close>.
\<close>

fun assertMap :: "json \<Rightarrow> object option" where
  "assertMap (JObj m) = Some m"
| "assertMap _ = None"

fun assertString :: "json \<Rightarrow> string option" where
  "assertString (JStr s) = Some s"
| "assertString _ = None"

fun assertSlice :: "json \<Rightarrow> json list option" where
  "assertSlice (JArr xs) = Some xs"
| "assertSlice _ = None"

text \<open>
  \<open>a == b\<close> on two interface values: a run-time panic (\<open>None\<close>) when both hold a slice
  or both hold a map, since those types are not comparable; otherwise equality of
  dynamic type and value.
\<close>

fun ifaceEq :: "json \<Rightarrow> json \<Rightarrow> bool option" where
  "ifaceEq (JArr _) (JArr _) = None"
| "ifaceEq (JObj _) (JObj _) = None"
| "ifaceEq a b = Some (a = b)"

text \<open>A loop whose body may panic: the first panic ends everything.\<close>

fun forEach :: "('a \<Rightarrow> 's \<Rightarrow> 's option) \<Rightarrow> 'a list \<Rightarrow> 's \<Rightarrow> 's option" where
  "forEach body [] s = Some s"
| "forEach body (x # xs) s =
     (case body x s of None \<Rightarrow> None | Some s' \<Rightarrow> forEach body xs s')"

subsection \<open>Deriving relationships\<close>

text \<open>
  The selector test, written twice in the source (\<open>listAllResources\<close> and
  \<open>updateRelationships\<close>): \<open>matches\<close> starts as \<open>true\<close>; the first selector pair whose
  value differs from \<open>podLabels[key]\<close> sets it to \<open>false\<close> and breaks.
\<close>

fun selectorMatches :: "object \<Rightarrow> object \<Rightarrow> bool option" where
  "selectorMatches [] podLabels = Some True"
| "selectorMatches ((k, v) # selector) podLabels =
     (case ifaceEq (index podLabels k) v of
        None \<Rightarrow> None
      | Some True \<Rightarrow> selectorMatches selector podLabels
      | Some False \<Rightarrow> Some False)"

text \<open>
  The labels of a pod "with nil check": an absent or nil \<open>labels\<close> entry is the empty
  map, anything else is asserted to be a map.
\<close>

definition labelsOf :: "object \<Rightarrow> object option" where
  "labelsOf metadata =
     (case map_of metadata ''labels'' of
        None \<Rightarrow> Some []
      | Some JNull \<Rightarrow> Some []
      | Some labelsInterface \<Rightarrow> assertMap labelsInterface)"

definition podKey :: "string \<Rightarrow> string \<Rightarrow> EntityKey" where
  "podKey name namespace = \<lparr>Name = name, Namespace = namespace, Type = ''Pod''\<rparr>"

definition serviceKey :: "string \<Rightarrow> string \<Rightarrow> EntityKey" where
  "serviceKey name namespace = \<lparr>Name = name, Namespace = namespace, Type = ''Service''\<rparr>"

text \<open>
  The owner-reference loop, written for pods (owner kind \<open>ReplicaSet\<close>) and for
  replica sets (owner kind \<open>Deployment\<close>): every reference of the wanted kind becomes
  an \<open>owned_by\<close> relationship to an entity of that kind in the owned entity's namespace.
\<close>

definition ownerStep :: "EntityKey \<Rightarrow> string \<Rightarrow> json \<Rightarrow> Graph \<Rightarrow> Graph option" where
  "ownerStep source ownerKind ownerRef g = do {
     owner \<leftarrow> assertMap ownerRef;
     kind \<leftarrow> assertString (index owner ''kind'');
     if kind = ownerKind then do {
       ownerName \<leftarrow> assertString (index owner ''name'');
       Some (AddRelationship g source
               \<lparr>Name = ownerName, Namespace = Namespace source, Type = ownerKind\<rparr>
               ''owned_by'' None)
     } else Some g
   }"

text \<open>The volume loop of a deployment: every volume with a \<open>configMap\<close> entry.\<close>

definition volumeStep :: "EntityKey \<Rightarrow> json \<Rightarrow> Graph \<Rightarrow> Graph option" where
  "volumeStep source volume g = do {
     vol \<leftarrow> assertMap volume;
     (case map_of vol ''configMap'' of
        None \<Rightarrow> Some g
      | Some configMap \<Rightarrow> do {
          cm \<leftarrow> assertMap configMap;
          configMapName \<leftarrow> assertString (index cm ''name'');
          Some (AddRelationship g source
                  \<lparr>Name = configMapName, Namespace = Namespace source, Type = ''ConfigMap''\<rparr>
                  ''uses'' None)
        })
   }"

text \<open>
  The body of the loop over the pods in the \<open>Service\<close> case of \<open>updateRelationships\<close>:
  a pod that matches the selector gets a \<open>targets\<close> relationship, for one that does not
  the relationship is removed.
\<close>

definition servicePodStep :: "EntityKey \<Rightarrow> object \<Rightarrow> object \<Rightarrow> Graph \<Rightarrow> Graph option" where
  "servicePodStep source selector pod g = do {
     metadata \<leftarrow> assertMap (index pod ''metadata'');
     podName \<leftarrow> assertString (index metadata ''name'');
     podNamespace \<leftarrow> assertString (index metadata ''namespace'');
     podLabels \<leftarrow> labelsOf metadata;
     matches \<leftarrow> selectorMatches selector podLabels;
     if matches
     then Some (AddRelationship g source (podKey podName podNamespace) ''targets'' None)
     else Some (RemoveRelationship g source (podKey podName podNamespace) ''targets'')
   }"

text \<open>
  The first block of the \<open>Pod\<close> case of \<open>updateRelationships\<close>:
  \<open>if nodeName, ok := ...["nodeName"].(string); ok && nodeName != ""\<close> adds the
  \<open>runs_on\<close> relationship to the node, which has no namespace.
\<close>

definition runsOn :: "Graph \<Rightarrow> EntityKey \<Rightarrow> json \<Rightarrow> Graph" where
  "runsOn g source nodeNameField =
     (case assertString nodeNameField of
        None \<Rightarrow> g
      | Some nodeName \<Rightarrow>
          if nodeName \<noteq> ''''
          then AddRelationship g source
                 \<lparr>Name = nodeName, Namespace = '''', Type = ''Node''\<rparr> ''runs_on'' None
          else g)"

text \<open>
  \<open>updateRelationships\<close>. The pod cache is a global of the program and is passed
  explicitly; it is a Go map from \<open>namespace/name\<close> to the pod's object, and the
  \<open>range\<close> over it visits the entries of the association list in their order (Go leaves
  the order open; the theorems below hold for every list). \<open>Node\<close>, \<open>ConfigMap\<close> and
  any other resource type have no case in the switch.
\<close>

definition updateRelationships ::
  "Graph \<Rightarrow> (string \<times> object) list \<Rightarrow> object \<Rightarrow> string \<Rightarrow> string \<Rightarrow> string \<Rightarrow> Graph option" where
  "updateRelationships g podCache obj resourceType name namespace =
     (if resourceType = ''Pod'' then do {
        spec \<leftarrow> assertMap (index obj ''spec'');
        let g1 = runsOn g (podKey name namespace) (index spec ''nodeName'');
        metadata \<leftarrow> assertMap (index obj ''metadata'');
        (case assertSlice (index metadata ''ownerReferences'') of
           None \<Rightarrow> Some g1
         | Some ownerRefs \<Rightarrow>
             forEach (ownerStep (podKey name namespace) ''ReplicaSet'') ownerRefs g1)
      }
      else if resourceType = ''ReplicaSet'' then do {
        metadata \<leftarrow> assertMap (index obj ''metadata'');
        (case assertSlice (index metadata ''ownerReferences'') of
           None \<Rightarrow> Some g
         | Some ownerRefs \<Rightarrow>
             forEach (ownerStep \<lparr>Name = name, Namespace = namespace, Type = ''ReplicaSet''\<rparr>
                        ''Deployment'') ownerRefs g)
      }
      else if resourceType = ''Service'' then do {
        spec \<leftarrow> assertMap (index obj ''spec'');
        (case assertMap (index spec ''selector'') of
           None \<Rightarrow> Some g
         | Some selector \<Rightarrow>
             forEach (servicePodStep (serviceKey name namespace) selector)
               (map snd podCache) g)
      }
      else if resourceType = ''Deployment'' then do {
        spec \<leftarrow> assertMap (index obj ''spec'');
        template \<leftarrow> assertMap (index spec ''template'');
        templateSpec \<leftarrow> assertMap (index template ''spec'');
        (case assertSlice (index templateSpec ''volumes'') of
           None \<Rightarrow> Some g
         | Some volumes \<Rightarrow>
             forEach (volumeStep \<lparr>Name = name, Namespace = namespace, Type = ''Deployment''\<rparr>)
               volumes g)
      }
      else Some g)"

subsection \<open>Removing the relationships of a deleted resource\<close>

text \<open>
  \<open>removeResourceRelationships\<close> ranges over \<open>g.Relationships\<close> and calls
  \<open>RemoveRelationship\<close> inside the loop. A Go \<open>range\<close> evaluates the slice once: the
  loop runs for the length the slice had at the start, and iteration \<open>i\<close> reads element
  \<open>i\<close> of the underlying array as it is at that moment. \<open>RemoveRelationship\<close> deletes
  with \<open>append(s[:j], s[j+1:]...)\<close>, which shifts the elements after \<open>j\<close> one place to
  the left inside the same array and leaves the array's slot of the old last element as
  it was. The array is therefore \<open>Relationships g @ stale\<close>, where \<open>stale\<close> collects
  the slots behind the current end of the slice: each deletion puts the old last element
  in front of \<open>stale\<close>. The first argument counts the iterations left, the second is
  the index \<open>i\<close>.
\<close>

primrec removeResourceLoop ::
  "nat \<Rightarrow> nat \<Rightarrow> Graph \<Rightarrow> GraphRelationship list \<Rightarrow> EntityKey \<Rightarrow> Graph" where
  "removeResourceLoop 0 i g stale k = g"
| "removeResourceLoop (Suc n) i g stale k =
     (let rel = (Relationships g @ stale) ! i in
      if incident rel k then
        let g' = RemoveRelationship g (Source rel) (Target rel) (RelationshipType rel);
            stale' = (if length (Relationships g') < length (Relationships g)
                      then last (Relationships g) # stale else stale)
        in removeResourceLoop n (Suc i) g' stale' k
      else removeResourceLoop n (Suc i) g stale k)"

definition removeResourceRelationships :: "Graph \<Rightarrow> EntityKey \<Rightarrow> Graph" where
  "removeResourceRelationships g k =
     removeResourceLoop (length (Relationships g)) 0 g [] k"

subsection \<open>The watch loop\<close>

text \<open>
  The state of the program: the graph and the two global caches, Go maps keyed by
  \<open>namespace/name\<close>. An event carries its type, the typed object and the map that
  \<open>runtime.DefaultUnstructuredConverter.ToUnstructured\<close> made of it (\<open>None\<close> when the
  conversion returned an error); the converter is the library's, so its result is part
  of the input.
\<close>

record scraper =
  graph :: Graph
  podCache :: "(string \<times> object) list"
  serviceCache :: "(string \<times> object) list"

datatype event_type = Added | Modified | Deleted | Bookmark | Error

record watch_event =
  EventType :: event_type
  Object :: k8s_object
  Unstructured :: "object option"

definition cacheKey :: "string \<Rightarrow> string \<Rightarrow> string" where
  "cacheKey namespace name = namespace @ ''/'' @ name"

fun cachePut :: "string \<Rightarrow> object \<Rightarrow> (string \<times> object) list \<Rightarrow> (string \<times> object) list" where
  "cachePut k v [] = [(k, v)]"
| "cachePut k v (p # ps) = (if fst p = k then (k, v) # ps else p # cachePut k v ps)"

definition cacheDelete :: "string \<Rightarrow> (string \<times> object) list \<Rightarrow> (string \<times> object) list" where
  "cacheDelete k ps = filter (\<lambda>p. fst p \<noteq> k) ps"

definition storeInCache :: "string \<Rightarrow> string \<Rightarrow> string \<Rightarrow> object \<Rightarrow> scraper \<Rightarrow> scraper" where
  "storeInCache resourceType namespace name obj s =
     (if resourceType = ''Pod''
      then s\<lparr>podCache := cachePut (cacheKey namespace name) obj (podCache s)\<rparr>
      else if resourceType = ''Service''
      then s\<lparr>serviceCache := cachePut (cacheKey namespace name) obj (serviceCache s)\<rparr>
      else s)"

definition deleteFromCache :: "string \<Rightarrow> string \<Rightarrow> string \<Rightarrow> scraper \<Rightarrow> scraper" where
  "deleteFromCache resourceType namespace name s =
     (if resourceType = ''Pod''
      then s\<lparr>podCache := cacheDelete (cacheKey namespace name) (podCache s)\<rparr>
      else if resourceType = ''Service''
      then s\<lparr>serviceCache := cacheDelete (cacheKey namespace name) (serviceCache s)\<rparr>
      else s)"

text \<open>
  What the converter makes of the selector of a Service. The field is
  \<open>Selector map[string]string\<close> with the tag \<open>json:"selector,omitempty"\<close>: for a nil or
  empty map the converter writes no \<open>selector\<close> entry into \<open>spec\<close>, for any other map
  it writes a \<open>map[string]interface{}\<close> with the same keys, every value a string.
\<close>

definition selectorEntry :: "(string \<times> string) list \<Rightarrow> object" where
  "selectorEntry selector =
     (if selector = [] then []
      else [(''selector'', JObj (map (\<lambda>(k, v). (k, JStr v)) selector))])"

text \<open>The namespace "with nil check": absent or nil is the empty string.\<close>

definition namespaceOf :: "object \<Rightarrow> string option" where
  "namespaceOf metadata =
     (case map_of metadata ''namespace'' of
        None \<Rightarrow> Some ''''
      | Some JNull \<Rightarrow> Some ''''
      | Some namespaceInterface \<Rightarrow> assertString namespaceInterface)"

text \<open>
  One iteration of the inner loop of \<open>watchResource\<close>, for one event of the watcher of
  \<open>resourceType\<close>. \<open>None\<close> is a panic of the goroutine, which ends the process.
\<close>

definition processEvent :: "string \<Rightarrow> watch_event \<Rightarrow> scraper \<Rightarrow> scraper option" where
  "processEvent resourceType event s =
     (case Unstructured event of
        None \<Rightarrow> Some s
      | Some unstructuredObj \<Rightarrow> do {
          metadata \<leftarrow> assertMap (index unstructuredObj ''metadata'');
          name \<leftarrow> assertString (index metadata ''name'');
          namespace \<leftarrow> namespaceOf metadata;
          (case EventType event of
             Added \<Rightarrow> do {
               g1 \<leftarrow> AddNode (graph s) (Object event);
               g2 \<leftarrow> updateRelationships g1 (podCache s) unstructuredObj resourceType
                       name namespace;
               Some (storeInCache resourceType namespace name unstructuredObj
                       (s\<lparr>graph := g2\<rparr>))
             }
           | Modified \<Rightarrow> do {
               g1 \<leftarrow> UpdateNode (graph s) (Object event);
               g2 \<leftarrow> updateRelationships g1 (podCache s) unstructuredObj resourceType
                       name namespace;
               Some (storeInCache resourceType namespace name unstructuredObj
                       (s\<lparr>graph := g2\<rparr>))
             }
           | Deleted \<Rightarrow> do {
               g1 \<leftarrow> RemoveNode (graph s) (Object event);
               Some (deleteFromCache resourceType namespace name
                       (s\<lparr>graph := removeResourceRelationships g1
                            \<lparr>Name = name, Namespace = namespace, Type = resourceType\<rparr>\<rparr>))
             }
           | Bookmark \<Rightarrow> Some s
           | Error \<Rightarrow> Some s)
        })"

text \<open>
  A run of the watchers: the events in the order in which they are processed, each with
  the resource type of the watcher that received it.
\<close>

definition processEvents :: "(string \<times> watch_event) list \<Rightarrow> scraper \<Rightarrow> scraper option" where
  "processEvents events s = forEach (\<lambda>(resourceType, event). processEvent resourceType event) events s"

definition initial :: scraper where
  "initial = \<lparr>graph = NewGraph, podCache = [], serviceCache = []\<rparr>"

subsection \<open>The initial listing\<close>

text \<open>
  \<open>listAllResources\<close> gets six \<open>[]interface{}\<close> from the client, each with an error.
  It hands every element to \<open>AddNode\<close> as it is and asserts the same element to be a
  \<open>map[string]interface{}\<close>. An element is therefore either a value of one of the types
  of \<open>k8s_object\<close> or a map; a map reaches the \<open>default\<close> case of
  \<open>objectToGraphNode\<close>. The error of a listing is its message.
\<close>

datatype item = TypedItem k8s_object | MapItem object

fun itemObject :: "item \<Rightarrow> k8s_object" where
  "itemObject (TypedItem obj) = obj"
| "itemObject (MapItem m) = OtherObject"

fun itemMap :: "item \<Rightarrow> object option" where
  "itemMap (MapItem m) = Some m"
| "itemMap (TypedItem obj) = None"

record listings =
  ListPods :: "string + item list"
  ListReplicaSets :: "string + item list"
  ListDeployments :: "string + item list"
  ListNodes :: "string + item list"
  ListServices :: "string + item list"
  ListConfigMaps :: "string + item list"

text \<open>
  The client of the repository (\<open>k8sclient/client.go\<close>). \<open>ListPods\<close> and its five
  siblings copy the \<open>Items\<close> of the typed list into the result, \<open>result[i] = pod\<close>:
  every element of a listing is a struct value such as \<open>corev1.Pod\<close>, which is neither
  one of the pointer types of \<open>objectToGraphNode\<close> nor a map. \<open>K8sClient\<close> holds of the
  listings this client can return.
\<close>

definition structValues :: "string + item list \<Rightarrow> bool" where
  "structValues r =
     (case r of Inl err \<Rightarrow> True | Inr xs \<Rightarrow> list_all (\<lambda>x. x = TypedItem OtherObject) xs)"

definition K8sClient :: "listings \<Rightarrow> bool" where
  "K8sClient client \<longleftrightarrow>
     structValues (ListPods client) \<and> structValues (ListReplicaSets client) \<and>
     structValues (ListDeployments client) \<and> structValues (ListNodes client) \<and>
     structValues (ListServices client) \<and> structValues (ListConfigMaps client)"

definition cacheItem :: "item \<Rightarrow> (string \<times> object) list \<Rightarrow> (string \<times> object) list option" where
  "cacheItem x cache = do {
     obj \<leftarrow> itemMap x;
     metadata \<leftarrow> assertMap (index obj ''metadata'');
     name \<leftarrow> assertString (index metadata ''name'');
     namespace \<leftarrow> assertString (index metadata ''namespace'');
     Some (cachePut (cacheKey namespace name) obj cache)
   }"

definition addNodes :: "item list \<Rightarrow> Graph \<Rightarrow> Graph option" where
  "addNodes xs g = forEach (\<lambda>x g. AddNode g (itemObject x)) xs g"

text \<open>An entry read "with nil check": absent or nil gives the default.\<close>

definition withNilCheck :: "object \<Rightarrow> string \<Rightarrow> 'a \<Rightarrow> (json \<Rightarrow> 'a option) \<Rightarrow> 'a option" where
  "withNilCheck m k dflt assert =
     (case map_of m k of None \<Rightarrow> Some dflt | Some JNull \<Rightarrow> Some dflt | Some v \<Rightarrow> assert v)"

text \<open>The four relationship loops of \<open>listAllResources\<close>, one body each.\<close>

definition listPodStep :: "item \<Rightarrow> Graph \<Rightarrow> Graph option" where
  "listPodStep pod g = do {
     podObj \<leftarrow> itemMap pod;
     metadata \<leftarrow> assertMap (index podObj ''metadata'');
     podName \<leftarrow> assertString (index metadata ''name'');
     podNamespace \<leftarrow> assertString (index metadata ''namespace'');
     spec \<leftarrow> assertMap (index podObj ''spec'');
     nodeName \<leftarrow> assertString (index spec ''nodeName'');
     ownerRefs \<leftarrow> withNilCheck metadata ''ownerReferences'' [] assertSlice;
     forEach (ownerStep (podKey podName podNamespace) ''ReplicaSet'') ownerRefs
       (if nodeName \<noteq> ''''
        then AddRelationship g (podKey podName podNamespace)
               \<lparr>Name = nodeName, Namespace = '''', Type = ''Node''\<rparr> ''runs_on'' None
        else g)
   }"

definition listReplicaSetStep :: "item \<Rightarrow> Graph \<Rightarrow> Graph option" where
  "listReplicaSetStep rs g = do {
     rsObj \<leftarrow> itemMap rs;
     metadata \<leftarrow> assertMap (index rsObj ''metadata'');
     rsName \<leftarrow> assertString (index metadata ''name'');
     rsNamespace \<leftarrow> assertString (index metadata ''namespace'');
     ownerRefs \<leftarrow> assertSlice (index metadata ''ownerReferences'');
     forEach (ownerStep \<lparr>Name = rsName, Namespace = rsNamespace, Type = ''ReplicaSet''\<rparr>
                ''Deployment'') ownerRefs g
   }"

definition listServicePodStep :: "EntityKey \<Rightarrow> object \<Rightarrow> item \<Rightarrow> Graph \<Rightarrow> Graph option" where
  "listServicePodStep source selector pod g = do {
     podObj \<leftarrow> itemMap pod;
     metadata \<leftarrow> assertMap (index podObj ''metadata'');
     podName \<leftarrow> assertString (index metadata ''name'');
     podNamespace \<leftarrow> assertString (index metadata ''namespace'');
     podLabels \<leftarrow> labelsOf metadata;
     matches \<leftarrow> selectorMatches selector podLabels;
     if matches
     then Some (AddRelationship g source (podKey podName podNamespace) ''targets'' None)
     else Some g
   }"

definition listServiceStep :: "item list \<Rightarrow> item \<Rightarrow> Graph \<Rightarrow> Graph option" where
  "listServiceStep pods service g = do {
     serviceObj \<leftarrow> itemMap service;
     metadata \<leftarrow> assertMap (index serviceObj ''metadata'');
     serviceName \<leftarrow> assertString (index metadata ''name'');
     serviceNamespace \<leftarrow> assertString (index metadata ''namespace'');
     spec \<leftarrow> assertMap (index serviceObj ''spec'');
     selector \<leftarrow> withNilCheck spec ''selector'' [] assertMap;
     forEach (listServicePodStep (serviceKey serviceName serviceNamespace) selector) pods g
   }"

definition listDeploymentStep :: "item \<Rightarrow> Graph \<Rightarrow> Graph option" where
  "listDeploymentStep deployment g = do {
     deploymentObj \<leftarrow> itemMap deployment;
     metadata \<leftarrow> assertMap (index deploymentObj ''metadata'');
     deploymentName \<leftarrow> assertString (index metadata ''name'');
     deploymentNamespace \<leftarrow> assertString (index metadata ''namespace'');
     spec \<leftarrow> assertMap (index deploymentObj ''spec'');
     template \<leftarrow> assertMap (index spec ''template'');
     templateSpec \<leftarrow> assertMap (index template ''spec'');
     volumes \<leftarrow> assertSlice (index templateSpec ''volumes'');
     forEach (volumeStep
                \<lparr>Name = deploymentName, Namespace = deploymentNamespace, Type = ''Deployment''\<rparr>)
       volumes g
   }"

text \<open>The part of \<open>listAllResources\<close> under the comment "Create relationships".\<close>

definition createRelationships ::
  "item list \<Rightarrow> item list \<Rightarrow> item list \<Rightarrow> item list \<Rightarrow> Graph \<Rightarrow> Graph option" where
  "createRelationships pods replicasets services deployments g = do {
     g1 \<leftarrow> forEach listPodStep pods g;
     g2 \<leftarrow> forEach listReplicaSetStep replicasets g1;
     g3 \<leftarrow> forEach (listServiceStep pods) services g2;
     forEach listDeploymentStep deployments g3
   }"

text \<open>
  \<open>listAllResources\<close>. The result is \<open>None\<close> for a panic; otherwise the returned error
  (\<open>None\<close> for nil) and the state. A failed listing returns at once, with what the
  earlier listings have already put into the graph and the caches.
\<close>

definition listAllResources :: "listings \<Rightarrow> scraper \<Rightarrow> (string option \<times> scraper) option" where
  "listAllResources client s =
     (case ListPods client of
        Inl err \<Rightarrow> Some (Some (''error listing pods: '' @ err), s)
      | Inr pods \<Rightarrow> do {
          pc \<leftarrow> forEach cacheItem pods (podCache s);
          ga \<leftarrow> addNodes pods (graph s);
          let sa = s\<lparr>graph := ga, podCache := pc\<rparr>;
          (case ListReplicaSets client of
             Inl err \<Rightarrow> Some (Some (''error listing replicasets: '' @ err), sa)
           | Inr replicasets \<Rightarrow> do {
               gb \<leftarrow> addNodes replicasets ga;
               let sb = sa\<lparr>graph := gb\<rparr>;
               (case ListDeployments client of
                  Inl err \<Rightarrow> Some (Some (''error listing deployments: '' @ err), sb)
                | Inr deployments \<Rightarrow> do {
                    gc \<leftarrow> addNodes deployments gb;
                    let sc = sb\<lparr>graph := gc\<rparr>;
                    (case ListNodes client of
                       Inl err \<Rightarrow> Some (Some (''error listing nodes: '' @ err), sc)
                     | Inr nodes \<Rightarrow> do {
                         gd \<leftarrow> addNodes nodes gc;
                         let sd = sc\<lparr>graph := gd\<rparr>;
                         (case ListServices client of
                            Inl err \<Rightarrow> Some (Some (''error listing services: '' @ err), sd)
                          | Inr services \<Rightarrow> do {
                              sv \<leftarrow> forEach cacheItem services (serviceCache s);
                              ge \<leftarrow> addNodes services gd;
                              let se = sd\<lparr>graph := ge, serviceCache := sv\<rparr>;
                              (case ListConfigMaps client of
                                 Inl err \<Rightarrow>
                                   Some (Some (''error listing configmaps: '' @ err), se)
                               | Inr configmaps \<Rightarrow> do {
                                   gf \<leftarrow> addNodes configmaps ge;
                                   gg \<leftarrow> createRelationships pods replicasets services
                                           deployments gf;
                                   Some (None, se\<lparr>graph := gg\<rparr>)
                                 })
                            })
                       })
                  })
             })
        })"

subsection \<open>Emitting the graph\<close>

text \<open>
  \<open>emitGraph\<close> passes the graph to \<open>json.MarshalIndent\<close>, which writes the exported
  fields \<open>Nodes\<close> and \<open>Relationships\<close>, each slice in its own order, and nothing else:
  the snapshot is this pair of sequences.
\<close>

definition snapshot :: "Graph \<Rightarrow> GraphNode list \<times> GraphRelationship list" where
  "snapshot g = (Nodes g, Relationships g)"

text \<open>
  The order the specification gives for keys: by kind, then namespace, then name, each
  compared as a string.
\<close>

definition keyLe :: "EntityKey \<Rightarrow> EntityKey \<Rightarrow> bool" where
  "keyLe a b \<longleftrightarrow>
     Type a < Type b \<or>
     (Type a = Type b \<and>
       (Namespace a < Namespace b \<or> (Namespace a = Namespace b \<and> Name a \<le> Name b)))"

text \<open>A sequence of edge additions applied to a graph.\<close>

definition addAll :: "(EntityKey \<times> EntityKey \<times> string \<times> props) list \<Rightarrow> Graph \<Rightarrow> Graph" where
  "addAll adds g = foldl (\<lambda>g (s, t, ty, p). AddRelationship g s t ty p) g adds"

subsection \<open>Example inputs\<close>

text \<open>
  The entities of the specification's end-to-end scenario: node \<open>n1\<close>, pod \<open>p1\<close> and
  service \<open>svc1\<close> in namespace \<open>default\<close>, and a replica set \<open>rs1\<close> that owns the pod.
\<close>

definition exPod :: EntityKey where
  "exPod = \<lparr>Name = ''p1'', Namespace = ''default'', Type = ''Pod''\<rparr>"

definition exNode :: EntityKey where
  "exNode = \<lparr>Name = ''n1'', Namespace = '''', Type = ''Node''\<rparr>"

definition exNode2 :: EntityKey where
  "exNode2 = \<lparr>Name = ''n2'', Namespace = '''', Type = ''Node''\<rparr>"

definition exReplicaSet :: EntityKey where
  "exReplicaSet = \<lparr>Name = ''rs1'', Namespace = ''default'', Type = ''ReplicaSet''\<rparr>"

definition exService :: EntityKey where
  "exService = \<lparr>Name = ''svc1'', Namespace = ''default'', Type = ''Service''\<rparr>"

definition exRel :: "EntityKey \<Rightarrow> EntityKey \<Rightarrow> string \<Rightarrow> 64 word \<Rightarrow> GraphRelationship" where
  "exRel s t ty r =
     \<lparr>Source = s, Target = t, RelationshipType = ty, Properties = None, Revision = r\<rparr>"

definition exGraph :: Graph where
  "exGraph =
     \<lparr>Nodes = [],
      Relationships =
        [exRel exPod exNode ''runs_on'' 1, exRel exPod exReplicaSet ''owned_by'' 1],
      revision = 3\<rparr>"

definition exState :: scraper where
  "exState = \<lparr>graph = exGraph, podCache = [], serviceCache = []\<rparr>"

text \<open>
  The unstructured form of a pod (name, labels, node name, owner references) and of a
  service (name, selector), both in namespace \<open>default\<close>, and the events that carry them.
\<close>

definition exMetadata :: "string \<Rightarrow> object \<Rightarrow> object" where
  "exMetadata name extra = [(''name'', JStr name), (''namespace'', JStr ''default'')] @ extra"

definition exPodObject :: "string \<Rightarrow> object \<Rightarrow> string \<Rightarrow> json list \<Rightarrow> object" where
  "exPodObject name labels nodeName ownerRefs =
     [(''metadata'', JObj (exMetadata name
         [(''labels'', JObj labels), (''ownerReferences'', JArr ownerRefs)])),
      (''spec'', JObj [(''nodeName'', JStr nodeName)])]"

definition exOwner :: "string \<Rightarrow> string \<Rightarrow> json" where
  "exOwner kind name = JObj [(''kind'', JStr kind), (''name'', JStr name)]"

definition exPodEvent :: "event_type \<Rightarrow> string \<Rightarrow> object \<Rightarrow> string \<Rightarrow> json list \<Rightarrow> watch_event" where
  "exPodEvent ty name labels nodeName ownerRefs =
     \<lparr>EventType = ty, Object = PodPtr name ''default'' ''Running'',
      Unstructured = Some (exPodObject name labels nodeName ownerRefs)\<rparr>"

definition exServiceObject :: "string \<Rightarrow> object \<Rightarrow> object" where
  "exServiceObject name selector =
     [(''metadata'', JObj (exMetadata name [])),
      (''spec'', JObj [(''selector'', JObj selector)])]"

definition exServiceEvent :: "event_type \<Rightarrow> string \<Rightarrow> object \<Rightarrow> watch_event" where
  "exServiceEvent ty name selector =
     \<lparr>EventType = ty, Object = ServicePtr name ''default'' ''ClusterIP'',
      Unstructured = Some (exServiceObject name selector)\<rparr>"

text \<open>
  The edges of a state as identity triples, in slice order; \<open>None\<close> when the run has
  panicked.
\<close>

definition edges :: "scraper option \<Rightarrow> (EntityKey \<times> EntityKey \<times> string) list option" where
  "edges r = map_option (\<lambda>s. map relIdentity (Relationships (graph s))) r"

definition nodeKeys :: "scraper option \<Rightarrow> EntityKey list option" where
  "nodeKeys r = map_option (\<lambda>s. map Key (fst (snapshot (graph s)))) r"

text \<open>
  Scenario A of the specification followed by the relabelling of scenario B: node
  \<open>n1\<close>, pod \<open>p1\<close> on \<open>n1\<close> with labels \<open>{app: x}\<close>, service \<open>svc1\<close> with selector
  \<open>{app: x}\<close>, then a Modified event that relabels \<open>p1\<close> to \<open>{app: y}\<close>.
\<close>

definition exNodeEvent :: "event_type \<Rightarrow> string \<Rightarrow> watch_event" where
  "exNodeEvent ty name =
     \<lparr>EventType = ty, Object = NodePtr name ''Running'',
      Unstructured = Some [(''metadata'', JObj [(''name'', JStr name)])]\<rparr>"

definition exRelabel :: "(string \<times> watch_event) list" where
  "exRelabel =
     [(''Node'', exNodeEvent Added ''n1''),
      (''Pod'', exPodEvent Added ''p1'' [(''app'', JStr ''x'')] ''n1'' []),
      (''Service'', exServiceEvent Added ''svc1'' [(''app'', JStr ''x'')]),
      (''Pod'', exPodEvent Modified ''p1'' [(''app'', JStr ''y'')] ''n1'' [])]"

text \<open>
  A pod with three incident edges (it runs on \<open>n1\<close>, is owned by \<open>rs1\<close> and is targeted
  by \<open>svc1\<close>) is deleted.
\<close>

definition exDelete :: "(string \<times> watch_event) list" where
  "exDelete =
     [(''Pod'', exPodEvent Added ''p1'' [(''app'', JStr ''x'')] ''n1''
                  [exOwner ''ReplicaSet'' ''rs1'']),
      (''Service'', exServiceEvent Added ''svc1'' [(''app'', JStr ''x'')]),
      (''Pod'', exPodEvent Deleted ''p1'' [(''app'', JStr ''x'')] ''n1''
                  [exOwner ''ReplicaSet'' ''rs1''])]"

text \<open>The same pod and service, created in the two possible orders.\<close>

definition exServiceFirst :: "(string \<times> watch_event) list" where
  "exServiceFirst =
     [(''Service'', exServiceEvent Added ''svc1'' [(''app'', JStr ''x'')]),
      (''Pod'', exPodEvent Added ''p1'' [(''app'', JStr ''x'')] ''n1'' [])]"

definition exPodFirst :: "(string \<times> watch_event) list" where
  "exPodFirst =
     [(''Pod'', exPodEvent Added ''p1'' [(''app'', JStr ''x'')] ''n1'' []),
      (''Service'', exServiceEvent Added ''svc1'' [(''app'', JStr ''x'')])]"

text \<open>
  A pod that is not scheduled yet: its \<open>spec\<close> has no \<open>nodeName\<close>. A watch event
  carries it as the map below; in the initial listing it is a struct value.
\<close>

definition exPendingPod :: object where
  "exPendingPod =
     [(''metadata'', JObj (exMetadata ''p1'' [(''labels'', JObj [(''app'', JStr ''x'')])])),
      (''spec'', JObj [])]"

definition exListing :: "item list \<Rightarrow> item list \<Rightarrow> item list \<Rightarrow> listings" where
  "exListing pods replicasets services =
     \<lparr>ListPods = Inr pods, ListReplicaSets = Inr replicasets, ListDeployments = Inr [],
      ListNodes = Inr [], ListServices = Inr services, ListConfigMaps = Inr []\<rparr>"

definition exPendingEvent :: watch_event where
  "exPendingEvent =
     \<lparr>EventType = Added, Object = PodPtr ''p1'' ''default'' ''Pending'',
      Unstructured = Some exPendingPod\<rparr>"

text \<open>A node's pod changes its node; two pods added in the order \<open>b\<close>, \<open>a\<close>.\<close>

definition exReschedule :: "(string \<times> watch_event) list" where
  "exReschedule =
     [(''Pod'', exPodEvent Added ''p1'' [] ''n1'' []),
      (''Pod'', exPodEvent Modified ''p1'' [] ''n2'' [])]"

definition exTwoPods :: "(string \<times> watch_event) list" where
  "exTwoPods =
     [(''Pod'', exPodEvent Added ''b'' [] ''n1'' []),
      (''Pod'', exPodEvent Added ''a'' [] ''n1'' [])]"

text \<open>
  A service event as the converter writes it, from the service's name and its typed
  selector; the state after pod \<open>p1\<close> (labels \<open>{app: x}\<close>, on \<open>n1\<close>) has been added;
  and a listing of the client for a cluster that has one node and one config map.
\<close>

definition exConvertedService ::
  "event_type \<Rightarrow> string \<Rightarrow> (string \<times> string) list \<Rightarrow> watch_event" where
  "exConvertedService ty name selector =
     \<lparr>EventType = ty, Object = ServicePtr name ''default'' ''ClusterIP'',
      Unstructured = Some
        [(''metadata'', JObj (exMetadata name [])),
         (''spec'', JObj (selectorEntry selector @ [(''type'', JStr ''ClusterIP'')]))]\<rparr>"

definition exPodState :: scraper where
  "exPodState =
     \<lparr>graph =
        \<lparr>Nodes = [mkNode exPod [(''status'', ''Running'')]],
         Relationships = [exRel exPod exNode ''runs_on'' 1],
         revision = 3\<rparr>,
      podCache = [(''default/p1'', exPodObject ''p1'' [(''app'', JStr ''x'')] ''n1'' [])],
      serviceCache = []\<rparr>"

definition exNodeListing :: listings where
  "exNodeListing =
     \<lparr>ListPods = Inr [], ListReplicaSets = Inr [], ListDeployments = Inr [],
      ListNodes = Inr [TypedItem OtherObject], ListServices = Inr [],
      ListConfigMaps = Inr [TypedItem OtherObject]\<rparr>"

text \<open>
  A replica set \<open>rs1\<close> owned by deployment \<open>d1\<close>, and the deployment \<open>d1\<close> with one
  volume that refers to config map \<open>cm1\<close>.
\<close>

definition exReplicaSetEvent :: watch_event where
  "exReplicaSetEvent =
     \<lparr>EventType = Added, Object = ReplicaSetPtr ''rs1'' ''default'' (Some 1),
      Unstructured = Some
        [(''metadata'', JObj (exMetadata ''rs1''
            [(''ownerReferences'', JArr [exOwner ''Deployment'' ''d1''])]))]\<rparr>"

definition exVolume :: object where
  "exVolume = [(''name'', JStr ''config''), (''configMap'', JObj [(''name'', JStr ''cm1'')])]"

definition exDeploymentEvent :: watch_event where
  "exDeploymentEvent =
     \<lparr>EventType = Modified, Object = DeploymentPtr ''d1'' ''default'' (Some 1),
      Unstructured = Some
        [(''metadata'', JObj (exMetadata ''d1'' [])),
         (''spec'', JObj [(''template'', JObj [(''spec'', JObj
             [(''volumes'', JArr [JObj exVolume])])])])]\<rparr>"

subsection \<open>Edge diffs and reachable states\<close>

text \<open>
  The specification describes relationship derivation as an edge diff: a sequence of
  edges to add and edges to remove. \<open>applyOps\<close> applies such a sequence with
  \<open>AddRelationship\<close> (properties nil, as in every call of the main package) and
  \<open>RemoveRelationship\<close>. A step of the program is a \<open>diffStep\<close> when it either
  panics on every graph or applies one and the same sequence to every graph; the
  properties below show that \<open>updateRelationships\<close> is one.
\<close>

datatype edge_op =
    AddEdge EntityKey EntityKey string
  | RemoveEdge EntityKey EntityKey string

fun applyOp :: "edge_op \<Rightarrow> Graph \<Rightarrow> Graph" where
  "applyOp (AddEdge s t ty) g = AddRelationship g s t ty None"
| "applyOp (RemoveEdge s t ty) g = RemoveRelationship g s t ty"

definition applyOps :: "edge_op list \<Rightarrow> Graph \<Rightarrow> Graph" where
  "applyOps ops g = fold applyOp ops g"

definition diffStep :: "(Graph \<Rightarrow> Graph option) \<Rightarrow> bool" where
  "diffStep f \<longleftrightarrow> (\<exists>r. \<forall>g. f g = map_option (\<lambda>ops. applyOps ops g) r)"

fun opIdentity :: "edge_op \<Rightarrow> EntityKey \<times> EntityKey \<times> string" where
  "opIdentity (AddEdge s t ty) = (s, t, ty)"
| "opIdentity (RemoveEdge s t ty) = (s, t, ty)"

text \<open>
  An edge without its revision counter: identity triple and properties. On the set of
  these, an addition replaces whatever the identity had by the new edge with nil
  properties, and a removal deletes what the identity had.
\<close>

definition edgeFacts :: "GraphRelationship \<Rightarrow> (EntityKey \<times> EntityKey \<times> string) \<times> props" where
  "edgeFacts rel = (relIdentity rel, Properties rel)"

fun opFacts ::
  "edge_op \<Rightarrow> ((EntityKey \<times> EntityKey \<times> string) \<times> props) set \<Rightarrow>
   ((EntityKey \<times> EntityKey \<times> string) \<times> props) set" where
  "opFacts (AddEdge s t ty) S = insert ((s, t, ty), None) {e \<in> S. fst e \<noteq> (s, t, ty)}"
| "opFacts (RemoveEdge s t ty) S = {e \<in> S. fst e \<noteq> (s, t, ty)}"

text \<open>
  The states of the program: it starts with the empty graph and empty caches, runs
  \<open>listAllResources\<close> and then processes watch events.
\<close>

inductive reachable :: "scraper \<Rightarrow> bool" where
  start: "reachable initial"
| listed: "reachable s \<Longrightarrow> listAllResources client s = Some (err, s') \<Longrightarrow> reachable s'"
| event: "reachable s \<Longrightarrow> processEvent resourceType ev s = Some s' \<Longrightarrow> reachable s'"

section \<open>Properties of the graph package\<close>

text \<open>The definitions of the example inputs, for evaluating them.\<close>

lemmas ex_defs =
  exPod_def exNode_def exNode2_def exReplicaSet_def exService_def exRel_def exGraph_def
  exState_def exMetadata_def exPodObject_def exOwner_def exPodEvent_def
  exServiceObject_def
  exServiceEvent_def

lemmas run_defs =
  edges_def nodeKeys_def snapshot_def exNodeEvent_def exRelabel_def exDelete_def
  exServiceFirst_def exPodFirst_def exPendingPod_def exListing_def exPendingEvent_def
  exReschedule_def exTwoPods_def exConvertedService_def exPodState_def exNodeListing_def
  exReplicaSetEvent_def exVolume_def exDeploymentEvent_def

lemma sameKey_eq [simp]: "sameKey a b \<longleftrightarrow> a = b"
  by (cases a, cases b) (auto simp: sameKey_def)

lemma relMatches_iff: "relMatches rel s t ty \<longleftrightarrow> relIdentity rel = (s, t, ty)"
  by (simp add: relMatches_def relIdentity_def)

lemma relIdentity_update [simp]:
  "relIdentity (rel\<lparr>Properties := p, Revision := r\<rparr>) = relIdentity rel"
  by (simp add: relIdentity_def)

lemma addRelLoop_None:
  "addRelLoop rels s t ty p = None \<longleftrightarrow> (s, t, ty) \<notin> relIdentity ` set rels"
  by (induction rels) (auto simp: relMatches_iff)

lemma addRelLoop_Some:
  "addRelLoop rels s t ty p = Some rels' \<Longrightarrow>
   \<exists>before rel after. rels = before @ rel # after \<and>
     (s, t, ty) \<notin> relIdentity ` set before \<and> relIdentity rel = (s, t, ty) \<and>
     rels' = before @ rel\<lparr>Properties := p, Revision := Revision rel + 1\<rparr> # after"
proof (induction rels arbitrary: rels')
  case Nil
  then show ?case by simp
next
  case (Cons r rels)
  show ?case
  proof (cases "relMatches r s t ty")
    case True
    with Cons.prems have "rels' = r\<lparr>Properties := p, Revision := Revision r + 1\<rparr> # rels"
      by simp
    with True show ?thesis
      by (intro exI [of _ "[]"] exI [of _ r] exI [of _ rels]) (simp add: relMatches_iff)
  next
    case False
    with Cons.prems obtain tl' where tl: "addRelLoop rels s t ty p = Some tl'" and r': "rels' = r # tl'"
      by auto
    from Cons.IH [OF tl] obtain before rel after where
      "rels = before @ rel # after" "(s, t, ty) \<notin> relIdentity ` set before"
      "relIdentity rel = (s, t, ty)"
      "tl' = before @ rel\<lparr>Properties := p, Revision := Revision rel + 1\<rparr> # after"
      by blast
    with False r' show ?thesis
      by (intro exI [of _ "r # before"] exI [of _ rel] exI [of _ after])
         (simp add: relMatches_iff)
  qed
qed

lemma addRelLoop_identities:
  "addRelLoop rels s t ty p = Some rels' \<Longrightarrow> map relIdentity rels' = map relIdentity rels"
  by (induction rels arbitrary: rels') (auto split: if_splits)

lemma AddRelationship_identities:
  "map relIdentity (Relationships (AddRelationship g s t ty p)) =
     (if (s, t, ty) \<in> relIdentity ` set (Relationships g)
      then map relIdentity (Relationships g)
      else map relIdentity (Relationships g) @ [(s, t, ty)])"
proof (cases "addRelLoop (Relationships g) s t ty p")
  case None
  then have "(s, t, ty) \<notin> relIdentity ` set (Relationships g)"
    by (simp add: addRelLoop_None)
  moreover have "relIdentity \<lparr>Source = s, Target = t, RelationshipType = ty,
      Properties = p, Revision = 1\<rparr> = (s, t, ty)"
    by (simp add: relIdentity_def)
  ultimately show ?thesis
    using None by (simp add: AddRelationship_def)
next
  case (Some rels')
  then have "(s, t, ty) \<in> relIdentity ` set (Relationships g)"
    using addRelLoop_None [of "Relationships g" s t ty p] by simp
  with Some show ?thesis
    by (simp add: AddRelationship_def addRelLoop_identities)
qed

lemma AddRelationship_Nodes [simp]: "Nodes (AddRelationship g s t ty p) = Nodes g"
  by (simp add: AddRelationship_def split: option.splits)

lemma AddRelationship_distinct:
  "distinct (map relIdentity (Relationships g)) \<Longrightarrow>
   distinct (map relIdentity (Relationships (AddRelationship g s t ty p)))"
  by (simp add: AddRelationship_identities)

lemma removeRelLoop_None:
  "removeRelLoop rels s t ty = None \<longleftrightarrow> (s, t, ty) \<notin> relIdentity ` set rels"
  by (induction rels) (auto simp: relMatches_iff)

lemma removeRelLoop_Some:
  "removeRelLoop rels s t ty = Some rels' \<Longrightarrow>
   \<exists>before rel after. rels = before @ rel # after \<and>
     (s, t, ty) \<notin> relIdentity ` set before \<and> relIdentity rel = (s, t, ty) \<and>
     rels' = before @ after"
proof (induction rels arbitrary: rels')
  case Nil
  then show ?case by simp
next
  case (Cons r rels)
  show ?case
  proof (cases "relMatches r s t ty")
    case True
    with Cons.prems have "rels' = rels" by simp
    with True show ?thesis
      by (intro exI [of _ "[]"] exI [of _ r] exI [of _ rels]) (simp add: relMatches_iff)
  next
    case False
    with Cons.prems obtain tl' where tl: "removeRelLoop rels s t ty = Some tl'" and r': "rels' = r # tl'"
      by auto
    from Cons.IH [OF tl] obtain before rel after where
      "rels = before @ rel # after" "(s, t, ty) \<notin> relIdentity ` set before"
      "relIdentity rel = (s, t, ty)" "tl' = before @ after"
      by blast
    with False r' show ?thesis
      by (intro exI [of _ "r # before"] exI [of _ rel] exI [of _ after])
         (simp add: relMatches_iff)
  qed
qed

lemma exists_match_iff:
  "(\<exists>r \<in> set rels. relMatches r s t ty) \<longleftrightarrow> (s, t, ty) \<in> relIdentity ` set rels"
  by (induction rels) (auto simp: relMatches_iff)

lemma removeRelLoop_matches:
  assumes "removeRelLoop rels s t ty = Some rels'"
  shows "\<exists>before rel after. rels = before @ rel # after \<and>
     (\<forall>r \<in> set before. \<not> relMatches r s t ty) \<and> relMatches rel s t ty \<and>
     rels' = before @ after"
proof -
  from removeRelLoop_Some [OF assms] obtain before rel after where
    *: "rels = before @ rel # after" "(s, t, ty) \<notin> relIdentity ` set before"
    "relIdentity rel = (s, t, ty)" "rels' = before @ after"
    by blast
  from *(2) have "\<forall>r \<in> set before. \<not> relMatches r s t ty"
    using exists_match_iff [of before s t ty] by blast
  moreover from *(3) have "relMatches rel s t ty"
    by (simp add: relMatches_iff)
  ultimately show ?thesis
    using *(1,4) by blast
qed

lemma addRelLoop_matches:
  assumes "addRelLoop rels s t ty p = Some rels'"
  shows "\<exists>before rel after. rels = before @ rel # after \<and>
     (\<forall>r \<in> set before. \<not> relMatches r s t ty) \<and> relMatches rel s t ty \<and>
     rels' = before @ rel\<lparr>Properties := p, Revision := Revision rel + 1\<rparr> # after"
proof -
  from addRelLoop_Some [OF assms] obtain before rel after where
    *: "rels = before @ rel # after" "(s, t, ty) \<notin> relIdentity ` set before"
    "relIdentity rel = (s, t, ty)"
    "rels' = before @ rel\<lparr>Properties := p, Revision := Revision rel + 1\<rparr> # after"
    by blast
  from *(2) have "\<forall>r \<in> set before. \<not> relMatches r s t ty"
    using exists_match_iff [of before s t ty] by blast
  moreover from *(3) have "relMatches rel s t ty"
    by (simp add: relMatches_iff)
  ultimately show ?thesis
    using *(1,4) by blast
qed

lemma addAll_distinct:
  "distinct (map relIdentity (Relationships g)) \<Longrightarrow>
   distinct (map relIdentity (Relationships (addAll adds g)))"
  unfolding addAll_def
  by (induction adds arbitrary: g) (auto simp: AddRelationship_distinct)

text \<open>
  Claim C9. Whatever sequence of edge additions is applied to the empty graph, no two
  relationships of the result have the same identity triple (source, target,
  relationship type). Adding an edge whose triple is already in a graph changes the
  first relationship with that triple in place (new properties, revision plus one) and
  leaves the slice otherwise as it was: no second relationship with the triple appears.
\<close>

theorem AddRelationship_no_duplicate:
  "distinct (map relIdentity (Relationships (addAll adds NewGraph))) \<and>
   ((\<exists>r \<in> set (Relationships g). relMatches r s t ty) \<longrightarrow>
      (\<exists>before rel after.
         Relationships g = before @ rel # after \<and>
         (\<forall>r \<in> set before. \<not> relMatches r s t ty) \<and> relMatches rel s t ty \<and>
         Relationships (AddRelationship g s t ty p) =
           before @ rel\<lparr>Properties := p, Revision := Revision rel + 1\<rparr> # after))"
proof (intro conjI impI)
  show "distinct (map relIdentity (Relationships (addAll adds NewGraph)))"
    by (rule addAll_distinct) (simp add: NewGraph_def)
next
  assume "\<exists>r \<in> set (Relationships g). relMatches r s t ty"
  then have "addRelLoop (Relationships g) s t ty p \<noteq> None"
    by (simp add: addRelLoop_None exists_match_iff)
  then obtain rels' where some: "addRelLoop (Relationships g) s t ty p = Some rels'"
    by blast
  from addRelLoop_matches [OF some] some
  show "\<exists>before rel after.
         Relationships g = before @ rel # after \<and>
         (\<forall>r \<in> set before. \<not> relMatches r s t ty) \<and> relMatches rel s t ty \<and>
         Relationships (AddRelationship g s t ty p) =
           before @ rel\<lparr>Properties := p, Revision := Revision rel + 1\<rparr> # after"
    by (simp add: AddRelationship_def)
qed

text \<open>
  Claim C10. \<open>RemoveRelationship\<close> never changes the nodes. When no relationship has
  the given source, target and type the graph is returned unchanged. Otherwise exactly
  the first relationship that matches is taken out, and the relationships before and
  after it stay as they are, in their order.
\<close>

theorem RemoveRelationship_frame:
  "Nodes (RemoveRelationship g s t ty) = Nodes g \<and>
   ((\<forall>r \<in> set (Relationships g). \<not> relMatches r s t ty) \<longrightarrow>
      RemoveRelationship g s t ty = g) \<and>
   ((\<exists>r \<in> set (Relationships g). relMatches r s t ty) \<longrightarrow>
      (\<exists>before rel after.
         Relationships g = before @ rel # after \<and>
         (\<forall>r \<in> set before. \<not> relMatches r s t ty) \<and> relMatches rel s t ty \<and>
         Relationships (RemoveRelationship g s t ty) = before @ after))"
proof (intro conjI impI)
  show "Nodes (RemoveRelationship g s t ty) = Nodes g"
    by (simp add: RemoveRelationship_def split: option.splits)
next
  assume "\<forall>r \<in> set (Relationships g). \<not> relMatches r s t ty"
  then have "removeRelLoop (Relationships g) s t ty = None"
    using exists_match_iff [of "Relationships g" s t ty] by (simp add: removeRelLoop_None)
  then show "RemoveRelationship g s t ty = g"
    by (simp add: RemoveRelationship_def)
next
  assume "\<exists>r \<in> set (Relationships g). relMatches r s t ty"
  then have "removeRelLoop (Relationships g) s t ty \<noteq> None"
    by (simp add: removeRelLoop_None exists_match_iff)
  then obtain rels' where some: "removeRelLoop (Relationships g) s t ty = Some rels'"
    by blast
  from removeRelLoop_matches [OF some] some
  show "\<exists>before rel after.
         Relationships g = before @ rel # after \<and>
         (\<forall>r \<in> set before. \<not> relMatches r s t ty) \<and> relMatches rel s t ty \<and>
         Relationships (RemoveRelationship g s t ty) = before @ after"
    by (simp add: RemoveRelationship_def)
qed

theorem RemoveRelationship_frame_witness:
  "(\<exists>r \<in> set (Relationships exGraph). relMatches r exPod exReplicaSet ''owned_by'') \<and>
   Relationships (RemoveRelationship exGraph exPod exReplicaSet ''owned_by'') =
     [exRel exPod exNode ''runs_on'' 1] \<and>
   Nodes (RemoveRelationship exGraph exPod exReplicaSet ''owned_by'') = Nodes exGraph \<and>
   \<not> (\<exists>r \<in> set (Relationships exGraph). relMatches r exService exPod ''targets'') \<and>
   RemoveRelationship exGraph exService exPod ''targets'' = exGraph"
  using RemoveRelationship_frame [of exGraph exPod exReplicaSet "''owned_by''"]
    RemoveRelationship_frame [of exGraph exService exPod "''targets''"]
  by (simp add: ex_defs relMatches_def sameKey_def RemoveRelationship_def)

theorem AddRelationship_no_duplicate_witness:
  "(\<exists>r \<in> set (Relationships exGraph). relMatches r exPod exNode ''runs_on'') \<and>
   Relationships (AddRelationship exGraph exPod exNode ''runs_on'' None) =
     [exRel exPod exNode ''runs_on'' 2, exRel exPod exReplicaSet ''owned_by'' 1] \<and>
   distinct (map relIdentity (Relationships (addAll
     [(exPod, exNode, ''runs_on'', None), (exPod, exReplicaSet, ''owned_by'', None),
      (exPod, exNode, ''runs_on'', None)] NewGraph)))"
  using AddRelationship_no_duplicate [of
     "[(exPod, exNode, ''runs_on'', None), (exPod, exReplicaSet, ''owned_by'', None),
       (exPod, exNode, ''runs_on'', None)]" exGraph exPod exNode "''runs_on''" None]
  by (simp add: ex_defs relMatches_def AddRelationship_def)

section \<open>The program on the specification's scenarios\<close>

text \<open>
  Claim C1. The claim says that a Modified event which relabels a targeted pod, so that
  its labels no longer satisfy the service's selector, removes the \<open>targets\<close> edge. The
  \<open>Pod\<close> case of \<open>updateRelationships\<close> derives \<open>runs_on\<close> and \<open>owned_by\<close> only
  and never looks at a service: after scenario A and the relabelling of scenario B the
  edge from \<open>svc1\<close> to \<open>p1\<close> is still in the graph. It goes away only when an
  event of the service itself is processed afterwards.
\<close>

theorem relabel_keeps_targets_edge:
  "edges (processEvents exRelabel initial) =
     Some [(exPod, exNode, ''runs_on''), (exService, exPod, ''targets'')] \<and>
   edges (processEvents
            (exRelabel @ [(''Service'', exServiceEvent Modified ''svc1'' [(''app'', JStr ''x'')])])
            initial) =
     Some [(exPod, exNode, ''runs_on'')]"
  by code_simp

text \<open>
  Claim C2. The claim says that after a Deleted event for a key no edge has the key as
  source or target. \<open>RemoveNode\<close> returns as soon as it has deleted the node, before its
  own loop over the relationships, and \<open>removeResourceRelationships\<close> deletes from the
  slice it is ranging over, so it skips elements: of the three edges incident to \<open>p1\<close>
  the \<open>owned_by\<close> edge survives the deletion of \<open>p1\<close>, while the node \<open>p1\<close> is gone.
\<close>

theorem delete_leaves_dangling_edge:
  "edges (processEvents exDelete initial) = Some [(exPod, exReplicaSet, ''owned_by'')] \<and>
   nodeKeys (processEvents exDelete initial) = Some [exService]"
  by code_simp

text \<open>
  Claim C5. The claim says that creating a service before a pod it selects and creating
  them in the opposite order end with the same edges. A pod event never derives a
  \<open>targets\<close> edge, so the edge exists only when the service is processed after the pod.
\<close>

theorem creation_order_changes_edges:
  "edges (processEvents exServiceFirst initial) = Some [(exPod, exNode, ''runs_on'')] \<and>
   edges (processEvents exPodFirst initial) =
     Some [(exPod, exNode, ''runs_on''), (exService, exPod, ''targets'')]"
  by code_simp

text \<open>
  Claim C7. The claim says that an entity with an absent field only loses the rule for
  that field, is still indexed and never halts the process. The watch loop does so: it
  reads \<open>nodeName\<close> and \<open>ownerReferences\<close> with two-result assertions, the pending pod
  becomes a node and simply has no \<open>runs_on\<close> edge. The initial listing does not. What
  the client lists is a struct value, and \<open>listAllResources\<close> asserts every listed pod,
  replica set and service to be a \<open>map[string]interface{}\<close> with a one-result
  assertion: a pod (scheduled or not), a replica set (owned or not) or a service that
  exists when the program starts makes it panic. Nothing that is listed is indexed, a
  struct value being none of the types that \<open>objectToGraphNode\<close> knows.
\<close>

theorem listing_panics_on_listed_object:
  "listAllResources (exListing [TypedItem OtherObject] [] []) initial = None \<and>
   listAllResources (exListing [] [TypedItem OtherObject] []) initial = None \<and>
   listAllResources (exListing [] [] [TypedItem OtherObject]) initial = None \<and>
   nodeKeys (processEvent ''Pod'' exPendingEvent initial) = Some [exPod] \<and>
   edges (processEvent ''Pod'' exPendingEvent initial) = Some []"
  by code_simp

section \<open>The order of a snapshot\<close>

lemma addNodeLoop_None:
  "addNodeLoop ns node = None \<longleftrightarrow> Key node \<notin> Key ` set ns"
  by (induction ns) auto

lemma addNodeLoop_keys:
  "addNodeLoop ns node = Some ns' \<Longrightarrow> map Key ns' = map Key ns"
  by (induction ns arbitrary: ns') (auto split: if_splits)

lemma AddNode_Relationships:
  "AddNode g obj = Some g' \<Longrightarrow> Relationships g' = Relationships g"
  by (auto simp: AddNode_def split: option.splits)

lemma AddNode_keys:
  assumes "objectToGraphNode obj = Some (Some node)"
  shows "\<exists>g'. AddNode g obj = Some g' \<and>
     map Key (Nodes g') =
       (if Key node \<in> set (map Key (Nodes g)) then map Key (Nodes g)
        else map Key (Nodes g) @ [Key node])"
proof (cases "addNodeLoop (Nodes g) node")
  case None
  then have "Key node \<notin> set (map Key (Nodes g))"
    by (simp add: addNodeLoop_None)
  with None assms show ?thesis
    by (simp add: AddNode_def)
next
  case (Some ns')
  then have "Key node \<in> set (map Key (Nodes g))"
    using addNodeLoop_None [of "Nodes g" node] by auto
  with Some assms show ?thesis
    by (simp add: AddNode_def addNodeLoop_keys)
qed

text \<open>
  Claim C8, as amended. A snapshot lists nodes and edges in the order of insertion, not
  in the order of their keys. \<open>AddNode\<close> of an object with a new key puts the key at
  the end of the node sequence, and leaves the sequence of keys as it is when the key is
  already there; the edge sequence is not touched. \<open>AddRelationship\<close> does the same
  with identity triples in the edge sequence and does not touch the nodes. The snapshot
  is a function of the graph's two slices, so equal graph states give equal output.
\<close>

theorem snapshot_insertion_order:
  "(objectToGraphNode obj = Some (Some node) \<longrightarrow>
     (\<exists>g'. AddNode g obj = Some g' \<and>
        map Key (fst (snapshot g')) =
          (if Key node \<in> set (map Key (fst (snapshot g))) then map Key (fst (snapshot g))
           else map Key (fst (snapshot g)) @ [Key node]) \<and>
        snd (snapshot g') = snd (snapshot g))) \<and>
   map relIdentity (snd (snapshot (AddRelationship g s t ty p))) =
     (if (s, t, ty) \<in> set (map relIdentity (snd (snapshot g)))
      then map relIdentity (snd (snapshot g))
      else map relIdentity (snd (snapshot g)) @ [(s, t, ty)]) \<and>
   fst (snapshot (AddRelationship g s t ty p)) = fst (snapshot g)"
proof (intro conjI impI)
  assume node: "objectToGraphNode obj = Some (Some node)"
  from AddNode_keys [OF node, of g] obtain g' where
    g': "AddNode g obj = Some g'" and
    keys: "map Key (Nodes g') =
       (if Key node \<in> set (map Key (Nodes g)) then map Key (Nodes g)
        else map Key (Nodes g) @ [Key node])"
    by blast
  from g' have "Relationships g' = Relationships g"
    by (rule AddNode_Relationships)
  with g' keys show "\<exists>g'. AddNode g obj = Some g' \<and>
        map Key (fst (snapshot g')) =
          (if Key node \<in> set (map Key (fst (snapshot g))) then map Key (fst (snapshot g))
           else map Key (fst (snapshot g)) @ [Key node]) \<and>
        snd (snapshot g') = snd (snapshot g)"
    by (simp add: snapshot_def)
next
  show "map relIdentity (snd (snapshot (AddRelationship g s t ty p))) =
     (if (s, t, ty) \<in> set (map relIdentity (snd (snapshot g)))
      then map relIdentity (snd (snapshot g))
      else map relIdentity (snd (snapshot g)) @ [(s, t, ty)])"
    by (simp add: snapshot_def AddRelationship_identities)
next
  show "fst (snapshot (AddRelationship g s t ty p)) = fst (snapshot g)"
    by (simp add: snapshot_def)
qed

text \<open>
  Claim C8 as stated fails: after the pods \<open>b\<close> and \<open>a\<close> of one namespace have been
  added in this order, the snapshot lists \<open>b\<close> before \<open>a\<close>, which is not the order
  of the keys.
\<close>

theorem snapshot_not_sorted:
  "nodeKeys (processEvents exTwoPods initial) =
     Some [podKey ''b'' ''default'', podKey ''a'' ''default''] \<and>
   \<not> sorted_wrt keyLe [podKey ''b'' ''default'', podKey ''a'' ''default'']"
  by code_simp

theorem snapshot_insertion_order_witness:
  "objectToGraphNode (PodPtr ''a'' ''default'' ''Running'') =
     Some (Some (mkNode (podKey ''a'' ''default'') [(''status'', ''Running'')])) \<and>
   (\<exists>g'. AddNode NewGraph (PodPtr ''a'' ''default'' ''Running'') = Some g' \<and>
      map Key (fst (snapshot g')) = [podKey ''a'' ''default'']) \<and>
   map relIdentity (snd (snapshot (AddRelationship exGraph exService exPod ''targets'' None))) =
     [(exPod, exNode, ''runs_on''), (exPod, exReplicaSet, ''owned_by''),
      (exService, exPod, ''targets'')]"
  using snapshot_insertion_order [of "PodPtr ''a'' ''default'' ''Running''"
      "mkNode (podKey ''a'' ''default'') [(''status'', ''Running'')]" NewGraph
      exService exPod "''targets''" None]
    snapshot_insertion_order [of OtherObject undefined exGraph exService exPod "''targets''" None]
  by (simp add: podKey_def mkNode_def snapshot_def NewGraph_def ex_defs relIdentity_def
      AddNode_def)

section \<open>Properties of the main package\<close>

subsection \<open>Loops\<close>

lemma forEach_invariant:
  assumes "forEach body xs g = Some g'" and "Q g"
    and "\<And>x h h'. x \<in> set xs \<Longrightarrow> Q h \<Longrightarrow> body x h = Some h' \<Longrightarrow> Q h'"
  shows "Q g'"
  using assms
proof (induction xs arbitrary: g)
  case Nil
  then show ?case by simp
next
  case (Cons x xs)
  from Cons.prems(1) obtain h where h: "body x g = Some h" and rest: "forEach body xs h = Some g'"
    by (auto split: option.splits)
  have "Q h"
    by (rule Cons.prems(3) [of x g h]) (use Cons.prems(2) h in auto)
  show ?case
    by (rule Cons.IH [OF rest \<open>Q h\<close>]) (use Cons.prems(3) in auto)
qed

lemma forEach_establishes:
  assumes "forEach body xs g = Some g'" and "x \<in> set xs"
    and "\<And>h h'. body x h = Some h' \<Longrightarrow> Q h'"
    and "\<And>y h h'. y \<in> set xs \<Longrightarrow> Q h \<Longrightarrow> body y h = Some h' \<Longrightarrow> Q h'"
  shows "Q g'"
  using assms
proof (induction xs arbitrary: g)
  case Nil
  then show ?case by simp
next
  case (Cons y ys)
  from Cons.prems(1) obtain h where h: "body y g = Some h" and rest: "forEach body ys h = Some g'"
    by (auto split: option.splits)
  show ?case
  proof (cases "x = y")
    case True
    with h Cons.prems(3) have "Q h" by simp
    show ?thesis
      by (rule forEach_invariant [where Q = Q, OF rest \<open>Q h\<close>]) (use Cons.prems(4) in auto)
  next
    case False
    with Cons.prems(2) have "x \<in> set ys" by simp
    show ?thesis
    proof (rule Cons.IH [OF rest \<open>x \<in> set ys\<close>])
      show "\<And>h h'. body x h = Some h' \<Longrightarrow> Q h'"
        by (rule Cons.prems(3))
      show "\<And>z h h'. z \<in> set ys \<Longrightarrow> Q h \<Longrightarrow> body z h = Some h' \<Longrightarrow> Q h'"
        using Cons.prems(4) by (meson list.set_intros(2))
    qed
  qed
qed

subsection \<open>Selector matching\<close>

lemma ifaceEq_string [simp]: "ifaceEq a (JStr x) = Some (a = JStr x)"
  by (cases a) simp_all

lemma selectorMatches_converted:
  "selectorMatches (map (\<lambda>(k, v). (k, JStr v)) selector) podLabels =
     Some (\<forall>(k, v) \<in> set selector. index podLabels k = JStr v)"
proof (induction selector)
  case Nil
  then show ?case by simp
next
  case (Cons kv selector)
  obtain k v where kv: "kv = (k, v)" by (cases kv)
  show ?case
    by (simp add: kv Cons.IH split: bool.splits)
qed

lemma AddRelationship_member:
  "(s, t, ty) \<in> set (map relIdentity (Relationships (AddRelationship g s t ty p)))"
  by (simp add: AddRelationship_identities)

lemma AddRelationship_keeps:
  "i \<in> set (map relIdentity (Relationships g)) \<Longrightarrow>
   i \<in> set (map relIdentity (Relationships (AddRelationship g s t ty p)))"
  by (simp add: AddRelationship_identities)

subsection \<open>The rules that only add\<close>

lemma ownerStep_cases:
  "ownerStep source ownerKind ownerRef h = Some h' \<Longrightarrow>
   h' = h \<or> (\<exists>t. h' = AddRelationship h source t ''owned_by'' None)"
  by (auto simp: ownerStep_def Option.bind_eq_Some_conv split: if_splits)

lemma ownerStep_keeps:
  "ownerStep source ownerKind ownerRef h = Some h' \<Longrightarrow>
   i \<in> set (map relIdentity (Relationships h)) \<Longrightarrow>
   i \<in> set (map relIdentity (Relationships h'))"
  by (drule ownerStep_cases) (auto simp only: AddRelationship_keeps)

lemma ownerStep_adds:
  "ownerStep source ownerKind (JObj owner) h = Some h' \<Longrightarrow>
   index owner ''kind'' = JStr ownerKind \<Longrightarrow> index owner ''name'' = JStr ownerName \<Longrightarrow>
   h' = AddRelationship h source
          \<lparr>Name = ownerName, Namespace = Namespace source, Type = ownerKind\<rparr> ''owned_by'' None"
  by (simp add: ownerStep_def)

lemma volumeStep_cases:
  "volumeStep source volume h = Some h' \<Longrightarrow>
   h' = h \<or> (\<exists>t. h' = AddRelationship h source t ''uses'' None)"
  by (auto simp: volumeStep_def Option.bind_eq_Some_conv split: option.splits)

lemma volumeStep_keeps:
  "volumeStep source volume h = Some h' \<Longrightarrow>
   i \<in> set (map relIdentity (Relationships h)) \<Longrightarrow>
   i \<in> set (map relIdentity (Relationships h'))"
  by (drule volumeStep_cases) (auto simp only: AddRelationship_keeps)

lemma volumeStep_adds:
  "volumeStep source (JObj vol) h = Some h' \<Longrightarrow>
   map_of vol ''configMap'' = Some (JObj cm) \<Longrightarrow> index cm ''name'' = JStr configMapName \<Longrightarrow>
   h' = AddRelationship h source
          \<lparr>Name = configMapName, Namespace = Namespace source, Type = ''ConfigMap''\<rparr>
          ''uses'' None"
  by (simp add: volumeStep_def)

lemma owner_loop_keeps:
  assumes "forEach (ownerStep source ownerKind) ownerRefs h = Some h'"
    and "i \<in> set (map relIdentity (Relationships h))"
  shows "i \<in> set (map relIdentity (Relationships h'))"
  by (rule forEach_invariant
        [where Q = "\<lambda>h. i \<in> set (map relIdentity (Relationships h))", OF assms])
     (rule ownerStep_keeps)

lemma owner_loop_adds:
  assumes loop: "forEach (ownerStep source ownerKind) ownerRefs h = Some h'"
    and ref: "JObj owner \<in> set ownerRefs"
    and kind: "index owner ''kind'' = JStr ownerKind"
    and name: "index owner ''name'' = JStr ownerName"
  shows "(source, \<lparr>Name = ownerName, Namespace = Namespace source, Type = ownerKind\<rparr>,
          ''owned_by'') \<in> set (map relIdentity (Relationships h'))"
proof (rule forEach_establishes [OF loop ref])
  fix a a'
  assume "ownerStep source ownerKind (JObj owner) a = Some a'"
  from ownerStep_adds [OF this kind name]
  show "(source, \<lparr>Name = ownerName, Namespace = Namespace source, Type = ownerKind\<rparr>,
          ''owned_by'') \<in> set (map relIdentity (Relationships a'))"
    by (simp only: AddRelationship_member)
next
  fix y a a'
  assume "(source, \<lparr>Name = ownerName, Namespace = Namespace source, Type = ownerKind\<rparr>,
          ''owned_by'') \<in> set (map relIdentity (Relationships a))"
    and "ownerStep source ownerKind y a = Some a'"
  then show "(source, \<lparr>Name = ownerName, Namespace = Namespace source, Type = ownerKind\<rparr>,
          ''owned_by'') \<in> set (map relIdentity (Relationships a'))"
    by (rule ownerStep_keeps [rotated])
qed

lemma volume_loop_keeps:
  assumes "forEach (volumeStep source) volumes h = Some h'"
    and "i \<in> set (map relIdentity (Relationships h))"
  shows "i \<in> set (map relIdentity (Relationships h'))"
  by (rule forEach_invariant
        [where Q = "\<lambda>h. i \<in> set (map relIdentity (Relationships h))", OF assms])
     (rule volumeStep_keeps)

lemma volume_loop_adds:
  assumes loop: "forEach (volumeStep source) volumes h = Some h'"
    and vol: "JObj vol \<in> set volumes"
    and cm: "map_of vol ''configMap'' = Some (JObj cm)"
    and name: "index cm ''name'' = JStr configMapName"
  shows "(source, \<lparr>Name = configMapName, Namespace = Namespace source, Type = ''ConfigMap''\<rparr>,
          ''uses'') \<in> set (map relIdentity (Relationships h'))"
proof (rule forEach_establishes [OF loop vol])
  fix a a'
  assume "volumeStep source (JObj vol) a = Some a'"
  from volumeStep_adds [OF this cm name]
  show "(source, \<lparr>Name = configMapName, Namespace = Namespace source, Type = ''ConfigMap''\<rparr>,
          ''uses'') \<in> set (map relIdentity (Relationships a'))"
    by (simp only: AddRelationship_member)
next
  fix y a a'
  assume "(source, \<lparr>Name = configMapName, Namespace = Namespace source, Type = ''ConfigMap''\<rparr>,
          ''uses'') \<in> set (map relIdentity (Relationships a))"
    and "volumeStep source y a = Some a'"
  then show "(source, \<lparr>Name = configMapName, Namespace = Namespace source, Type = ''ConfigMap''\<rparr>,
          ''uses'') \<in> set (map relIdentity (Relationships a'))"
    by (rule volumeStep_keeps [rotated])
qed

lemma assertMap_Some: "assertMap x = Some m \<longleftrightarrow> x = JObj m"
  by (cases x) auto

lemma assertString_Some: "assertString x = Some v \<longleftrightarrow> x = JStr v"
  by (cases x) auto

lemma assertSlice_Some: "assertSlice x = Some xs \<longleftrightarrow> x = JArr xs"
  by (cases x) auto

lemma update_pod:
  assumes "updateRelationships g cache obj ''Pod'' name namespace = Some g'"
  obtains spec metadata where
    "index obj ''spec'' = JObj spec" "index obj ''metadata'' = JObj metadata"
    "(case assertSlice (index metadata ''ownerReferences'') of
        None \<Rightarrow> Some (runsOn g (podKey name namespace) (index spec ''nodeName''))
      | Some ownerRefs \<Rightarrow>
          forEach (ownerStep (podKey name namespace) ''ReplicaSet'') ownerRefs
            (runsOn g (podKey name namespace) (index spec ''nodeName''))) = Some g'"
proof -
  from assms obtain spec metadata where
    "index obj ''spec'' = JObj spec" "index obj ''metadata'' = JObj metadata"
    "(case assertSlice (index metadata ''ownerReferences'') of
        None \<Rightarrow> Some (runsOn g (podKey name namespace) (index spec ''nodeName''))
      | Some ownerRefs \<Rightarrow>
          forEach (ownerStep (podKey name namespace) ''ReplicaSet'') ownerRefs
            (runsOn g (podKey name namespace) (index spec ''nodeName''))) = Some g'"
    by (auto simp: updateRelationships_def Let_def Option.bind_eq_Some_conv assertMap_Some)
  then show thesis
    by (rule that)
qed

lemma update_replicaset:
  assumes "updateRelationships g cache obj ''ReplicaSet'' name namespace = Some g'"
  obtains metadata where
    "index obj ''metadata'' = JObj metadata"
    "(case assertSlice (index metadata ''ownerReferences'') of
        None \<Rightarrow> Some g
      | Some ownerRefs \<Rightarrow>
          forEach (ownerStep \<lparr>Name = name, Namespace = namespace, Type = ''ReplicaSet''\<rparr>
                     ''Deployment'') ownerRefs g) = Some g'"
  using assms
  by (auto simp: updateRelationships_def Option.bind_eq_Some_conv assertMap_Some)

lemma update_deployment:
  assumes "updateRelationships g cache obj ''Deployment'' name namespace = Some g'"
  obtains spec template templateSpec where
    "index obj ''spec'' = JObj spec" "index spec ''template'' = JObj template"
    "index template ''spec'' = JObj templateSpec"
    "(case assertSlice (index templateSpec ''volumes'') of
        None \<Rightarrow> Some g
      | Some volumes \<Rightarrow>
          forEach (volumeStep \<lparr>Name = name, Namespace = namespace, Type = ''Deployment''\<rparr>)
            volumes g) = Some g'"
  using assms
  by (auto simp: updateRelationships_def Option.bind_eq_Some_conv assertMap_Some)

lemma update_other:
  assumes "resourceType \<noteq> ''Pod''" "resourceType \<noteq> ''ReplicaSet''"
    "resourceType \<noteq> ''Service''" "resourceType \<noteq> ''Deployment''"
  shows "updateRelationships g cache obj resourceType name namespace = Some g"
  using assms by (simp add: updateRelationships_def)

lemma runsOn_keeps:
  "i \<in> set (map relIdentity (Relationships g)) \<Longrightarrow>
   i \<in> set (map relIdentity (Relationships (runsOn g source field)))"
  by (auto simp only: runsOn_def AddRelationship_keeps split: option.splits if_splits)

lemma optional_loop_invariant:
  assumes "(case sl of None \<Rightarrow> Some h | Some xs \<Rightarrow> forEach body xs h) = Some h'"
    and "Q h"
    and "\<And>x a a'. Q a \<Longrightarrow> body x a = Some a' \<Longrightarrow> Q a'"
  shows "Q h'"
proof (cases sl)
  case None
  with assms(1,2) show ?thesis by simp
next
  case (Some xs)
  with assms(1) have "forEach body xs h = Some h'" by simp
  then show ?thesis
    by (rule forEach_invariant [where Q = Q]) (use assms(2,3) in blast)+
qed

lemma update_keeps:
  assumes rt: "resourceType \<noteq> ''Service''"
    and run: "updateRelationships g cache obj resourceType name namespace = Some g'"
    and i: "i \<in> set (map relIdentity (Relationships g))"
  shows "i \<in> set (map relIdentity (Relationships g'))"
proof -
  let ?Q = "\<lambda>h. i \<in> set (map relIdentity (Relationships h))"
  consider (pod) "resourceType = ''Pod''" | (rs) "resourceType = ''ReplicaSet''"
    | (dep) "resourceType = ''Deployment''"
    | (other) "resourceType \<noteq> ''Pod''" "resourceType \<noteq> ''ReplicaSet''"
        "resourceType \<noteq> ''Deployment''"
    by blast
  then show ?thesis
  proof cases
    case pod
    from run [unfolded pod] show ?thesis
    proof (rule update_pod)
      fix spec metadata
      assume loop: "(case assertSlice (index metadata ''ownerReferences'') of
          None \<Rightarrow> Some (runsOn g (podKey name namespace) (index spec ''nodeName''))
        | Some ownerRefs \<Rightarrow>
            forEach (ownerStep (podKey name namespace) ''ReplicaSet'') ownerRefs
              (runsOn g (podKey name namespace) (index spec ''nodeName''))) = Some g'"
      from i have "?Q (runsOn g (podKey name namespace) (index spec ''nodeName''))"
        by (rule runsOn_keeps)
      with loop show ?thesis
        by (rule optional_loop_invariant [where Q = ?Q]) (rule ownerStep_keeps)
    qed
  next
    case rs
    from run [unfolded rs] show ?thesis
    proof (rule update_replicaset)
      fix metadata
      assume "(case assertSlice (index metadata ''ownerReferences'') of
          None \<Rightarrow> Some g
        | Some ownerRefs \<Rightarrow>
            forEach (ownerStep \<lparr>Name = name, Namespace = namespace, Type = ''ReplicaSet''\<rparr>
                       ''Deployment'') ownerRefs g) = Some g'"
      then show ?thesis
        using i by (rule optional_loop_invariant [where Q = ?Q]) (rule ownerStep_keeps)
    qed
  next
    case dep
    from run [unfolded dep] show ?thesis
    proof (rule update_deployment)
      fix templateSpec
      assume "(case assertSlice (index templateSpec ''volumes'') of
          None \<Rightarrow> Some g
        | Some volumes \<Rightarrow>
            forEach (volumeStep \<lparr>Name = name, Namespace = namespace, Type = ''Deployment''\<rparr>)
              volumes g) = Some g'"
      then show ?thesis
        using i by (rule optional_loop_invariant [where Q = ?Q]) (rule volumeStep_keeps)
    qed
  next
    case other
    with rt run i show ?thesis
      by (simp add: update_other)
  qed
qed

lemma runsOn_adds:
  "nodeName \<noteq> '''' \<Longrightarrow>
   (source, \<lparr>Name = nodeName, Namespace = '''', Type = ''Node''\<rparr>, ''runs_on'')
     \<in> set (map relIdentity (Relationships (runsOn g source (JStr nodeName))))"
  using AddRelationship_member [of source "\<lparr>Name = nodeName, Namespace = '''', Type = ''Node''\<rparr>"
      "''runs_on''" g None]
  by (simp add: runsOn_def)

lemma update_pod_runs_on:
  assumes run: "updateRelationships g cache obj ''Pod'' name namespace = Some g'"
    and spec: "index obj ''spec'' = JObj spec"
    and node: "index spec ''nodeName'' = JStr nodeName" "nodeName \<noteq> ''''"
  shows "(podKey name namespace, \<lparr>Name = nodeName, Namespace = '''', Type = ''Node''\<rparr>,
          ''runs_on'') \<in> set (map relIdentity (Relationships g'))"
  using run
proof (rule update_pod)
  fix spec' metadata
  assume "index obj ''spec'' = JObj spec'"
    and loop: "(case assertSlice (index metadata ''ownerReferences'') of
        None \<Rightarrow> Some (runsOn g (podKey name namespace) (index spec' ''nodeName''))
      | Some ownerRefs \<Rightarrow>
          forEach (ownerStep (podKey name namespace) ''ReplicaSet'') ownerRefs
            (runsOn g (podKey name namespace) (index spec' ''nodeName''))) = Some g'"
  with spec have "spec' = spec" by simp
  let ?Q = "\<lambda>h. (podKey name namespace, \<lparr>Name = nodeName, Namespace = '''', Type = ''Node''\<rparr>,
          ''runs_on'') \<in> set (map relIdentity (Relationships h))"
  have "?Q (runsOn g (podKey name namespace) (index spec' ''nodeName''))"
    unfolding \<open>spec' = spec\<close> node(1) by (rule runsOn_adds [OF node(2)])
  with loop show ?thesis
    by (rule optional_loop_invariant [where Q = ?Q]) (rule ownerStep_keeps)
qed

lemma update_pod_owned_by:
  assumes run: "updateRelationships g cache obj ''Pod'' name namespace = Some g'"
    and md: "index obj ''metadata'' = JObj metadata"
    and refs: "index metadata ''ownerReferences'' = JArr ownerRefs"
    and ref: "JObj owner \<in> set ownerRefs"
    and kind: "index owner ''kind'' = JStr ''ReplicaSet''"
    and nm: "index owner ''name'' = JStr ownerName"
  shows "(podKey name namespace,
          \<lparr>Name = ownerName, Namespace = namespace, Type = ''ReplicaSet''\<rparr>, ''owned_by'')
           \<in> set (map relIdentity (Relationships g'))"
  using run
proof (rule update_pod)
  fix spec metadata'
  assume "index obj ''metadata'' = JObj metadata'"
    and loop: "(case assertSlice (index metadata' ''ownerReferences'') of
        None \<Rightarrow> Some (runsOn g (podKey name namespace) (index spec ''nodeName''))
      | Some ownerRefs \<Rightarrow>
          forEach (ownerStep (podKey name namespace) ''ReplicaSet'') ownerRefs
            (runsOn g (podKey name namespace) (index spec ''nodeName''))) = Some g'"
  with md have "metadata' = metadata" by simp
  with loop refs have "forEach (ownerStep (podKey name namespace) ''ReplicaSet'') ownerRefs
            (runsOn g (podKey name namespace) (index spec ''nodeName'')) = Some g'"
    by simp
  from owner_loop_adds [OF this ref kind nm] show ?thesis
    by (simp add: podKey_def)
qed

lemma update_replicaset_owned_by:
  assumes run: "updateRelationships g cache obj ''ReplicaSet'' name namespace = Some g'"
    and md: "index obj ''metadata'' = JObj metadata"
    and refs: "index metadata ''ownerReferences'' = JArr ownerRefs"
    and ref: "JObj owner \<in> set ownerRefs"
    and kind: "index owner ''kind'' = JStr ''Deployment''"
    and nm: "index owner ''name'' = JStr ownerName"
  shows "(\<lparr>Name = name, Namespace = namespace, Type = ''ReplicaSet''\<rparr>,
          \<lparr>Name = ownerName, Namespace = namespace, Type = ''Deployment''\<rparr>, ''owned_by'')
           \<in> set (map relIdentity (Relationships g'))"
  using run
proof (rule update_replicaset)
  fix metadata'
  assume "index obj ''metadata'' = JObj metadata'"
    and loop: "(case assertSlice (index metadata' ''ownerReferences'') of
        None \<Rightarrow> Some g
      | Some ownerRefs \<Rightarrow>
          forEach (ownerStep \<lparr>Name = name, Namespace = namespace, Type = ''ReplicaSet''\<rparr>
                     ''Deployment'') ownerRefs g) = Some g'"
  with md have "metadata' = metadata" by simp
  with loop refs have "forEach (ownerStep \<lparr>Name = name, Namespace = namespace, Type = ''ReplicaSet''\<rparr>
                     ''Deployment'') ownerRefs g = Some g'"
    by simp
  from owner_loop_adds [OF this ref kind nm] show ?thesis
    by simp
qed

lemma update_deployment_uses:
  assumes run: "updateRelationships g cache obj ''Deployment'' name namespace = Some g'"
    and spec: "index obj ''spec'' = JObj spec"
    and template: "index spec ''template'' = JObj template"
    and tspec: "index template ''spec'' = JObj templateSpec"
    and vols: "index templateSpec ''volumes'' = JArr volumes"
    and vol: "JObj vol \<in> set volumes"
    and cm: "map_of vol ''configMap'' = Some (JObj cm)"
    and nm: "index cm ''name'' = JStr configMapName"
  shows "(\<lparr>Name = name, Namespace = namespace, Type = ''Deployment''\<rparr>,
          \<lparr>Name = configMapName, Namespace = namespace, Type = ''ConfigMap''\<rparr>, ''uses'')
           \<in> set (map relIdentity (Relationships g'))"
  using run
proof (rule update_deployment)
  fix spec' template' templateSpec'
  assume "index obj ''spec'' = JObj spec'" "index spec' ''template'' = JObj template'"
    "index template' ''spec'' = JObj templateSpec'"
    and loop: "(case assertSlice (index templateSpec' ''volumes'') of
        None \<Rightarrow> Some g
      | Some volumes \<Rightarrow>
          forEach (volumeStep \<lparr>Name = name, Namespace = namespace, Type = ''Deployment''\<rparr>)
            volumes g) = Some g'"
  with spec template tspec have "templateSpec' = templateSpec" by simp
  with loop vols have "forEach (volumeStep \<lparr>Name = name, Namespace = namespace, Type = ''Deployment''\<rparr>)
            volumes g = Some g'"
    by simp
  from volume_loop_adds [OF this vol cm nm] show ?thesis
    by simp
qed

subsection \<open>One event\<close>

lemma graph_storeInCache [simp]:
  "graph (storeInCache resourceType namespace name obj s) = graph s"
  by (simp add: storeInCache_def)

lemma graph_deleteFromCache [simp]:
  "graph (deleteFromCache resourceType namespace name s) = graph s"
  by (simp add: deleteFromCache_def)

lemma processEvent_upsert:
  assumes "EventType ev = Added \<or> EventType ev = Modified"
    and "processEvent resourceType ev s = Some s'"
    and "Unstructured ev = Some obj"
  obtains metadata name namespace g1 g2 where
    "index obj ''metadata'' = JObj metadata" "index metadata ''name'' = JStr name"
    "namespaceOf metadata = Some namespace"
    "AddNode (graph s) (Object ev) = Some g1"
    "updateRelationships g1 (podCache s) obj resourceType name namespace = Some g2"
    "s' = storeInCache resourceType namespace name obj (s\<lparr>graph := g2\<rparr>)"
  using assms
  by (auto simp: processEvent_def UpdateNode_def Option.bind_eq_Some_conv assertMap_Some
      assertString_Some)

lemma processEvent_skipped:
  "Unstructured ev = None \<Longrightarrow> processEvent resourceType ev s = Some s"
  by (simp add: processEvent_def)

lemma upsert_keeps:
  assumes ev: "EventType ev = Added \<or> EventType ev = Modified"
    and rt: "resourceType \<noteq> ''Service''"
    and run: "processEvent resourceType ev s = Some s'"
    and i: "i \<in> set (map relIdentity (Relationships (graph s)))"
  shows "i \<in> set (map relIdentity (Relationships (graph s')))"
proof (cases "Unstructured ev")
  case None
  with run i show ?thesis
    by (simp add: processEvent_skipped)
next
  case (Some obj)
  from ev run Some show ?thesis
  proof (rule processEvent_upsert)
    fix metadata name namespace g1 g2
    assume node: "AddNode (graph s) (Object ev) = Some g1"
      and upd: "updateRelationships g1 (podCache s) obj resourceType name namespace = Some g2"
      and s': "s' = storeInCache resourceType namespace name obj (s\<lparr>graph := g2\<rparr>)"
    from node i have "i \<in> set (map relIdentity (Relationships g1))"
      by (simp add: AddNode_Relationships)
    from update_keeps [OF rt upd this] s' show ?thesis
      by simp
  qed
qed

text \<open>
  Claim C3, as amended. An Added or Modified event of a pod, a replica set or a
  deployment (any resource type but \<open>Service\<close>) that is processed without a panic
  retracts nothing: every edge of the graph before the event is an edge after it. And
  the edge for the current value of each field is in the graph afterwards: \<open>runs_on\<close>
  to the node named by a non-empty \<open>nodeName\<close>, \<open>owned_by\<close> to every owner
  reference of kind \<open>ReplicaSet\<close> (for a pod) or \<open>Deployment\<close> (for a replica set),
  \<open>uses\<close> to the config map of every volume that has one. So after a field has
  changed the old edge and the new edge are both present.
\<close>

theorem upsert_adds_and_retracts_nothing:
  assumes ev: "EventType ev = Added \<or> EventType ev = Modified"
    and run: "processEvent resourceType ev s = Some s'"
    and obj: "Unstructured ev = Some obj"
    and md: "index obj ''metadata'' = JObj metadata"
    and nm: "index metadata ''name'' = JStr name"
    and ns: "namespaceOf metadata = Some namespace"
  shows
    "(resourceType \<noteq> ''Service'' \<longrightarrow>
        set (map relIdentity (Relationships (graph s)))
          \<subseteq> set (map relIdentity (Relationships (graph s')))) \<and>
     (resourceType = ''Pod'' \<and> index obj ''spec'' = JObj spec \<and>
      index spec ''nodeName'' = JStr nodeName \<and> nodeName \<noteq> '''' \<longrightarrow>
        (podKey name namespace, \<lparr>Name = nodeName, Namespace = '''', Type = ''Node''\<rparr>,
         ''runs_on'') \<in> set (map relIdentity (Relationships (graph s')))) \<and>
     (resourceType = ''Pod'' \<and> index metadata ''ownerReferences'' = JArr ownerRefs \<and>
      JObj owner \<in> set ownerRefs \<and> index owner ''kind'' = JStr ''ReplicaSet'' \<and>
      index owner ''name'' = JStr ownerName \<longrightarrow>
        (podKey name namespace,
         \<lparr>Name = ownerName, Namespace = namespace, Type = ''ReplicaSet''\<rparr>, ''owned_by'')
          \<in> set (map relIdentity (Relationships (graph s')))) \<and>
     (resourceType = ''ReplicaSet'' \<and> index metadata ''ownerReferences'' = JArr ownerRefs \<and>
      JObj owner \<in> set ownerRefs \<and> index owner ''kind'' = JStr ''Deployment'' \<and>
      index owner ''name'' = JStr ownerName \<longrightarrow>
        (\<lparr>Name = name, Namespace = namespace, Type = ''ReplicaSet''\<rparr>,
         \<lparr>Name = ownerName, Namespace = namespace, Type = ''Deployment''\<rparr>, ''owned_by'')
          \<in> set (map relIdentity (Relationships (graph s')))) \<and>
     (resourceType = ''Deployment'' \<and> index obj ''spec'' = JObj spec \<and>
      index spec ''template'' = JObj template \<and> index template ''spec'' = JObj templateSpec \<and>
      index templateSpec ''volumes'' = JArr volumes \<and> JObj vol \<in> set volumes \<and>
      map_of vol ''configMap'' = Some (JObj cm) \<and> index cm ''name'' = JStr configMapName \<longrightarrow>
        (\<lparr>Name = name, Namespace = namespace, Type = ''Deployment''\<rparr>,
         \<lparr>Name = configMapName, Namespace = namespace, Type = ''ConfigMap''\<rparr>, ''uses'')
          \<in> set (map relIdentity (Relationships (graph s'))))"
  using ev run obj
proof (rule processEvent_upsert)
  fix metadata' name' namespace' g1 g2
  assume "index obj ''metadata'' = JObj metadata'" "index metadata' ''name'' = JStr name'"
    "namespaceOf metadata' = Some namespace'"
    and upd': "updateRelationships g1 (podCache s) obj resourceType name' namespace' = Some g2"
    and s': "s' = storeInCache resourceType namespace' name' obj (s\<lparr>graph := g2\<rparr>)"
  with md nm ns have "metadata' = metadata" "name' = name" "namespace' = namespace"
    by simp_all
  with upd' s' have
    upd: "updateRelationships g1 (podCache s) obj resourceType name namespace = Some g2"
    and g2: "graph s' = g2"
    by simp_all
  have keep: "resourceType \<noteq> ''Service'' \<longrightarrow>
        set (map relIdentity (Relationships (graph s)))
          \<subseteq> set (map relIdentity (Relationships (graph s')))"
    using upsert_keeps [OF ev _ run] by blast
  have runs: "resourceType = ''Pod'' \<and> index obj ''spec'' = JObj spec \<and>
      index spec ''nodeName'' = JStr nodeName \<and> nodeName \<noteq> '''' \<longrightarrow>
        (podKey name namespace, \<lparr>Name = nodeName, Namespace = '''', Type = ''Node''\<rparr>,
         ''runs_on'') \<in> set (map relIdentity (Relationships (graph s')))"
    using update_pod_runs_on [of g1 "podCache s" obj name namespace g2 spec nodeName] upd g2
    by blast
  have owned1: "resourceType = ''Pod'' \<and> index metadata ''ownerReferences'' = JArr ownerRefs \<and>
      JObj owner \<in> set ownerRefs \<and> index owner ''kind'' = JStr ''ReplicaSet'' \<and>
      index owner ''name'' = JStr ownerName \<longrightarrow>
        (podKey name namespace,
         \<lparr>Name = ownerName, Namespace = namespace, Type = ''ReplicaSet''\<rparr>, ''owned_by'')
          \<in> set (map relIdentity (Relationships (graph s')))"
    using update_pod_owned_by [of g1 "podCache s" obj name namespace g2 metadata ownerRefs
        owner ownerName] upd g2 md
    by blast
  have owned2: "resourceType = ''ReplicaSet'' \<and>
      index metadata ''ownerReferences'' = JArr ownerRefs \<and>
      JObj owner \<in> set ownerRefs \<and> index owner ''kind'' = JStr ''Deployment'' \<and>
      index owner ''name'' = JStr ownerName \<longrightarrow>
        (\<lparr>Name = name, Namespace = namespace, Type = ''ReplicaSet''\<rparr>,
         \<lparr>Name = ownerName, Namespace = namespace, Type = ''Deployment''\<rparr>, ''owned_by'')
          \<in> set (map relIdentity (Relationships (graph s')))"
    using update_replicaset_owned_by [of g1 "podCache s" obj name namespace g2 metadata
        ownerRefs owner ownerName] upd g2 md
    by blast
  have uses: "resourceType = ''Deployment'' \<and> index obj ''spec'' = JObj spec \<and>
      index spec ''template'' = JObj template \<and> index template ''spec'' = JObj templateSpec \<and>
      index templateSpec ''volumes'' = JArr volumes \<and> JObj vol \<in> set volumes \<and>
      map_of vol ''configMap'' = Some (JObj cm) \<and> index cm ''name'' = JStr configMapName \<longrightarrow>
        (\<lparr>Name = name, Namespace = namespace, Type = ''Deployment''\<rparr>,
         \<lparr>Name = configMapName, Namespace = namespace, Type = ''ConfigMap''\<rparr>, ''uses'')
          \<in> set (map relIdentity (Relationships (graph s')))"
    using update_deployment_uses [of g1 "podCache s" obj name namespace g2 spec template
        templateSpec volumes vol cm configMapName] upd g2
    by blast
  from keep runs owned1 owned2 uses show ?thesis
    by (intro conjI)
qed

text \<open>
  Claim C3 as stated fails: pod \<open>p1\<close> is added on node \<open>n1\<close> and then modified to
  run on \<open>n2\<close>; afterwards it has two \<open>runs_on\<close> edges.
\<close>

theorem reschedule_keeps_old_edge:
  "edges (processEvents exReschedule initial) =
     Some [(exPod, exNode, ''runs_on''), (exPod, exNode2, ''runs_on'')]"
  by code_simp

text \<open>The definitions a concrete event is evaluated with.\<close>

lemmas eval_defs =
  index_def namespaceOf_def podKey_def processEvent_def AddNode_def UpdateNode_def
  mkNode_def sprintf_d_def decimal.simps updateRelationships_def runsOn_def ownerStep_def
  volumeStep_def storeInCache_def cacheKey_def AddRelationship_def relMatches_def
  relIdentity_def

theorem upsert_adds_and_retracts_nothing_witness:
  "processEvent ''Pod'' (exPodEvent Modified ''p1'' [] ''n2'' [exOwner ''ReplicaSet'' ''rs1''])
     exState \<noteq> None \<and>
   set (map relIdentity (Relationships (graph exState))) \<subseteq>
     set (map relIdentity (Relationships (graph (the (processEvent ''Pod''
       (exPodEvent Modified ''p1'' [] ''n2'' [exOwner ''ReplicaSet'' ''rs1'']) exState))))) \<and>
   (exPod, exNode2, ''runs_on'') \<in>
     set (map relIdentity (Relationships (graph (the (processEvent ''Pod''
       (exPodEvent Modified ''p1'' [] ''n2'' [exOwner ''ReplicaSet'' ''rs1'']) exState))))) \<and>
   (exPod, exReplicaSet, ''owned_by'') \<in>
     set (map relIdentity (Relationships (graph (the (processEvent ''Pod''
       (exPodEvent Modified ''p1'' [] ''n2'' [exOwner ''ReplicaSet'' ''rs1'']) exState))))) \<and>
   processEvent ''ReplicaSet'' exReplicaSetEvent exState \<noteq> None \<and>
   (exReplicaSet, \<lparr>Name = ''d1'', Namespace = ''default'', Type = ''Deployment''\<rparr>,
    ''owned_by'') \<in>
     set (map relIdentity (Relationships (graph (the (processEvent ''ReplicaSet''
       exReplicaSetEvent exState))))) \<and>
   processEvent ''Deployment'' exDeploymentEvent exState \<noteq> None \<and>
   (\<lparr>Name = ''d1'', Namespace = ''default'', Type = ''Deployment''\<rparr>,
    \<lparr>Name = ''cm1'', Namespace = ''default'', Type = ''ConfigMap''\<rparr>, ''uses'') \<in>
     set (map relIdentity (Relationships (graph (the (processEvent ''Deployment''
       exDeploymentEvent exState)))))"
  using upsert_adds_and_retracts_nothing [of
      "exPodEvent Modified ''p1'' [] ''n2'' [exOwner ''ReplicaSet'' ''rs1'']" "''Pod''" exState
      "the (processEvent ''Pod''
         (exPodEvent Modified ''p1'' [] ''n2'' [exOwner ''ReplicaSet'' ''rs1'']) exState)"
      "exPodObject ''p1'' [] ''n2'' [exOwner ''ReplicaSet'' ''rs1'']"
      "exMetadata ''p1'' [(''labels'', JObj []),
         (''ownerReferences'', JArr [exOwner ''ReplicaSet'' ''rs1''])]"
      "''p1''" "''default''" "[(''nodeName'', JStr ''n2'')]" "''n2''"
      "[exOwner ''ReplicaSet'' ''rs1'']"
      "[(''kind'', JStr ''ReplicaSet''), (''name'', JStr ''rs1'')]" "''rs1''"]
    upsert_adds_and_retracts_nothing [of exReplicaSetEvent "''ReplicaSet''" exState
      "the (processEvent ''ReplicaSet'' exReplicaSetEvent exState)"
      "[(''metadata'', JObj (exMetadata ''rs1''
            [(''ownerReferences'', JArr [exOwner ''Deployment'' ''d1''])]))]"
      "exMetadata ''rs1'' [(''ownerReferences'', JArr [exOwner ''Deployment'' ''d1''])]"
      "''rs1''" "''default''" "[]" "''''"
      "[exOwner ''Deployment'' ''d1'']"
      "[(''kind'', JStr ''Deployment''), (''name'', JStr ''d1'')]" "''d1''"]
    upsert_adds_and_retracts_nothing [of exDeploymentEvent "''Deployment''" exState
      "the (processEvent ''Deployment'' exDeploymentEvent exState)"
      "[(''metadata'', JObj (exMetadata ''d1'' [])),
         (''spec'', JObj [(''template'', JObj [(''spec'', JObj
             [(''volumes'', JArr [JObj exVolume])])])])]"
      "exMetadata ''d1'' []" "''d1''" "''default''"
      "[(''template'', JObj [(''spec'', JObj [(''volumes'', JArr [JObj exVolume])])])]" "''''"
      "[]" "[]" "''''"
      "[(''spec'', JObj [(''volumes'', JArr [JObj exVolume])])]"
      "[(''volumes'', JArr [JObj exVolume])]" "[JObj exVolume]" exVolume
      "[(''name'', JStr ''cm1'')]" "''cm1''"]
  by (simp add: ex_defs run_defs eval_defs)

section \<open>Processing the same event twice\<close>

subsection \<open>Edge diffs\<close>

lemma removeRelLoop_identities:
  "removeRelLoop rels s t ty = Some rels' \<Longrightarrow>
   map relIdentity rels' = remove1 (s, t, ty) (map relIdentity rels)"
  by (induction rels arbitrary: rels') (auto simp: relMatches_iff split: if_splits)

lemma RemoveRelationship_identities:
  "map relIdentity (Relationships (RemoveRelationship g s t ty)) =
     remove1 (s, t, ty) (map relIdentity (Relationships g))"
proof (cases "removeRelLoop (Relationships g) s t ty")
  case None
  then have "(s, t, ty) \<notin> set (map relIdentity (Relationships g))"
    by (simp add: removeRelLoop_None)
  with None show ?thesis
    by (simp add: RemoveRelationship_def remove1_idem)
next
  case (Some rels')
  then show ?thesis
    by (simp add: RemoveRelationship_def removeRelLoop_identities)
qed

lemma RemoveRelationship_Nodes [simp]: "Nodes (RemoveRelationship g s t ty) = Nodes g"
  by (simp add: RemoveRelationship_def split: option.splits)

lemma applyOp_distinct:
  "distinct (map relIdentity (Relationships g)) \<Longrightarrow>
   distinct (map relIdentity (Relationships (applyOp op g)))"
  by (cases op) (simp_all add: AddRelationship_identities RemoveRelationship_identities)

lemma applyOp_Nodes [simp]: "Nodes (applyOp op g) = Nodes g"
  by (cases op) simp_all

lemma applyOps_Nodes [simp]: "Nodes (applyOps ops g) = Nodes g"
  unfolding applyOps_def by (induction ops arbitrary: g) simp_all

lemma applyOps_distinct:
  "distinct (map relIdentity (Relationships g)) \<Longrightarrow>
   distinct (map relIdentity (Relationships (applyOps ops g)))"
  unfolding applyOps_def by (induction ops arbitrary: g) (simp_all add: applyOp_distinct)

lemma fst_edgeFacts [simp]: "fst (edgeFacts rel) = relIdentity rel"
  by (simp add: edgeFacts_def)

lemma edgeFacts_update [simp]:
  "edgeFacts (rel\<lparr>Properties := p, Revision := r\<rparr>) = (relIdentity rel, p)"
  by (simp add: edgeFacts_def relIdentity_def)

lemma untouched_facts:
  "i \<notin> relIdentity ` set rels \<Longrightarrow>
   {e \<in> set (map edgeFacts rels). fst e \<noteq> i} = set (map edgeFacts rels)"
  by (induction rels) auto

lemma addRelLoop_facts:
  "distinct (map relIdentity rels) \<Longrightarrow> addRelLoop rels s t ty p = Some rels' \<Longrightarrow>
   set (map edgeFacts rels') =
     insert ((s, t, ty), p) {e \<in> set (map edgeFacts rels). fst e \<noteq> (s, t, ty)}"
proof (induction rels arbitrary: rels')
  case Nil
  then show ?case by simp
next
  case (Cons rel rels)
  show ?case
  proof (cases "relMatches rel s t ty")
    case True
    then have i: "relIdentity rel = (s, t, ty)"
      by (simp add: relMatches_iff)
    with Cons.prems(1) have "(s, t, ty) \<notin> relIdentity ` set rels"
      by simp
    then have "{e \<in> set (map edgeFacts rels). fst e \<noteq> (s, t, ty)} = set (map edgeFacts rels)"
      by (rule untouched_facts)
    moreover from True Cons.prems(2)
    have "rels' = rel\<lparr>Properties := p, Revision := Revision rel + 1\<rparr> # rels"
      by simp
    ultimately show ?thesis
      using i by auto
  next
    case False
    then have i: "relIdentity rel \<noteq> (s, t, ty)"
      by (simp add: relMatches_iff)
    from False Cons.prems(2) obtain tl' where
      tl: "addRelLoop rels s t ty p = Some tl'" and r': "rels' = rel # tl'"
      by auto
    from Cons.prems(1) have "distinct (map relIdentity rels)"
      by simp
    from Cons.IH [OF this tl] r' i show ?thesis
      by auto
  qed
qed

lemma removeRelLoop_facts:
  "distinct (map relIdentity rels) \<Longrightarrow> removeRelLoop rels s t ty = Some rels' \<Longrightarrow>
   set (map edgeFacts rels') = {e \<in> set (map edgeFacts rels). fst e \<noteq> (s, t, ty)}"
proof (induction rels arbitrary: rels')
  case Nil
  then show ?case by simp
next
  case (Cons rel rels)
  show ?case
  proof (cases "relMatches rel s t ty")
    case True
    then have i: "relIdentity rel = (s, t, ty)"
      by (simp add: relMatches_iff)
    with Cons.prems(1) have "(s, t, ty) \<notin> relIdentity ` set rels"
      by simp
    then have "{e \<in> set (map edgeFacts rels). fst e \<noteq> (s, t, ty)} = set (map edgeFacts rels)"
      by (rule untouched_facts)
    moreover from True Cons.prems(2) have "rels' = rels"
      by simp
    ultimately show ?thesis
      using i by auto
  next
    case False
    then have i: "relIdentity rel \<noteq> (s, t, ty)"
      by (simp add: relMatches_iff)
    from False Cons.prems(2) obtain tl' where
      tl: "removeRelLoop rels s t ty = Some tl'" and r': "rels' = rel # tl'"
      by auto
    from Cons.prems(1) have "distinct (map relIdentity rels)"
      by simp
    from Cons.IH [OF this tl] r' i show ?thesis
      by auto
  qed
qed

lemma applyOp_facts:
  assumes "distinct (map relIdentity (Relationships g))"
  shows "set (map edgeFacts (Relationships (applyOp op g))) =
           opFacts op (set (map edgeFacts (Relationships g)))"
proof (cases op)
  case (AddEdge s t ty)
  show ?thesis
  proof (cases "addRelLoop (Relationships g) s t ty None")
    case None
    then have "(s, t, ty) \<notin> relIdentity ` set (Relationships g)"
      by (simp add: addRelLoop_None)
    then have "{e \<in> set (map edgeFacts (Relationships g)). fst e \<noteq> (s, t, ty)} =
        set (map edgeFacts (Relationships g))"
      by (rule untouched_facts)
    with None AddEdge show ?thesis
      by (simp add: AddRelationship_def edgeFacts_def relIdentity_def)
  next
    case (Some rels')
    from addRelLoop_facts [OF assms Some] Some AddEdge show ?thesis
      by (simp add: AddRelationship_def)
  qed
next
  case (RemoveEdge s t ty)
  show ?thesis
  proof (cases "removeRelLoop (Relationships g) s t ty")
    case None
    then have "(s, t, ty) \<notin> relIdentity ` set (Relationships g)"
      by (simp add: removeRelLoop_None)
    then have "{e \<in> set (map edgeFacts (Relationships g)). fst e \<noteq> (s, t, ty)} =
        set (map edgeFacts (Relationships g))"
      by (rule untouched_facts)
    with None RemoveEdge show ?thesis
      by (simp add: RemoveRelationship_def)
  next
    case (Some rels')
    from removeRelLoop_facts [OF assms Some] Some RemoveEdge show ?thesis
      by (simp add: RemoveRelationship_def)
  qed
qed

lemma applyOps_facts:
  "distinct (map relIdentity (Relationships g)) \<Longrightarrow>
   set (map edgeFacts (Relationships (applyOps ops g))) =
     fold opFacts ops (set (map edgeFacts (Relationships g)))"
  unfolding applyOps_def
proof (induction ops arbitrary: g)
  case Nil
  then show ?case by simp
next
  case (Cons op ops)
  have "set (map edgeFacts (Relationships (fold applyOp (op # ops) g))) =
      set (map edgeFacts (Relationships (fold applyOp ops (applyOp op g))))"
    by simp
  also have "\<dots> = fold opFacts ops (set (map edgeFacts (Relationships (applyOp op g))))"
    by (rule Cons.IH [OF applyOp_distinct [OF Cons.prems]])
  also have "set (map edgeFacts (Relationships (applyOp op g))) =
      opFacts op (set (map edgeFacts (Relationships g)))"
    by (rule applyOp_facts [OF Cons.prems])
  finally show ?case
    by simp
qed

lemma opFacts_split: "opFacts op S = {e \<in> S. fst e \<noteq> opIdentity op} \<union> opFacts op {}"
  by (cases op) auto

lemma fold_opFacts_split:
  "fold opFacts ops S = {e \<in> S. fst e \<notin> opIdentity ` set ops} \<union> fold opFacts ops {}"
proof (induction ops arbitrary: S)
  case Nil
  then show ?case by simp
next
  case (Cons op ops)
  have "fold opFacts (op # ops) S = fold opFacts ops (opFacts op S)"
    by simp
  also have "\<dots> = {e \<in> opFacts op S. fst e \<notin> opIdentity ` set ops} \<union> fold opFacts ops {}"
    by (rule Cons.IH)
  also have "opFacts op S = {e \<in> S. fst e \<noteq> opIdentity op} \<union> opFacts op {}"
    by (rule opFacts_split)
  finally have lhs: "fold opFacts (op # ops) S =
      {e \<in> {e \<in> S. fst e \<noteq> opIdentity op} \<union> opFacts op {}. fst e \<notin> opIdentity ` set ops}
        \<union> fold opFacts ops {}" .
  have "fold opFacts (op # ops) {} =
      {e \<in> opFacts op {}. fst e \<notin> opIdentity ` set ops} \<union> fold opFacts ops {}"
    using Cons.IH [of "opFacts op {}"] by simp
  with lhs show ?case
    by auto
qed

lemma fold_opFacts_idem: "fold opFacts ops (fold opFacts ops S) = fold opFacts ops S"
proof -
  have "fold opFacts ops (fold opFacts ops S) =
      {e \<in> fold opFacts ops S. fst e \<notin> opIdentity ` set ops} \<union> fold opFacts ops {}"
    by (rule fold_opFacts_split)
  then show ?thesis
    using fold_opFacts_split [of ops S] by auto
qed

lemma applyOps_twice:
  assumes "distinct (map relIdentity (Relationships g))"
    and "Relationships h = Relationships (applyOps ops g)"
  shows "set (map edgeFacts (Relationships (applyOps ops h))) =
         set (map edgeFacts (Relationships h))"
proof -
  from assms have dh: "distinct (map relIdentity (Relationships h))"
    by (simp add: applyOps_distinct)
  have h: "set (map edgeFacts (Relationships h)) =
      fold opFacts ops (set (map edgeFacts (Relationships g)))"
    unfolding assms(2) by (rule applyOps_facts [OF assms(1)])
  have "set (map edgeFacts (Relationships (applyOps ops h))) =
      fold opFacts ops (set (map edgeFacts (Relationships h)))"
    by (rule applyOps_facts [OF dh])
  also have "\<dots> = fold opFacts ops (fold opFacts ops (set (map edgeFacts (Relationships g))))"
    by (simp only: h)
  also have "\<dots> = fold opFacts ops (set (map edgeFacts (Relationships g)))"
    by (rule fold_opFacts_idem)
  also have "\<dots> = set (map edgeFacts (Relationships h))"
    by (rule h [symmetric])
  finally show ?thesis .
qed

subsection \<open>Steps that are edge diffs\<close>

lemma diffStep_None: "diffStep (\<lambda>g. None)"
  unfolding diffStep_def by (rule exI [of _ None]) simp

lemma diffStep_Some: "diffStep (\<lambda>g. Some g)"
  unfolding diffStep_def by (rule exI [of _ "Some []"]) (simp add: applyOps_def)

lemma diffStep_Add: "diffStep (\<lambda>g. Some (AddRelationship g s t ty None))"
  unfolding diffStep_def by (rule exI [of _ "Some [AddEdge s t ty]"]) (simp add: applyOps_def)

lemma diffStep_Remove: "diffStep (\<lambda>g. Some (RemoveRelationship g s t ty))"
  unfolding diffStep_def by (rule exI [of _ "Some [RemoveEdge s t ty]"]) (simp add: applyOps_def)

lemma diffStep_bind:
  assumes "\<And>v. diffStep (k v)"
  shows "diffStep (\<lambda>g. Option.bind m (\<lambda>v. k v g))"
proof (cases m)
  case None
  then show ?thesis by (simp add: diffStep_None)
next
  case (Some v)
  with assms [of v] show ?thesis by simp
qed

lemma diffStep_seq:
  assumes "diffStep f" and "diffStep h"
  shows "diffStep (\<lambda>g. Option.bind (f g) h)"
proof -
  from assms obtain r1 r2 where
    f: "\<And>g. f g = map_option (\<lambda>ops. applyOps ops g) r1" and
    h: "\<And>g. h g = map_option (\<lambda>ops. applyOps ops g) r2"
    unfolding diffStep_def by blast
  show ?thesis
  proof (cases r1)
    case None
    with f show ?thesis by (simp add: diffStep_None)
  next
    case r1: (Some ops1)
    show ?thesis
    proof (cases r2)
      case None
      with f h r1 show ?thesis by (simp add: diffStep_None)
    next
      case (Some ops2)
      with f h r1 have "\<And>g. Option.bind (f g) h = Some (applyOps (ops1 @ ops2) g)"
        by (simp add: applyOps_def)
      then show ?thesis
        unfolding diffStep_def by (intro exI [of _ "Some (ops1 @ ops2)"]) simp
    qed
  qed
qed

lemma diffStep_forEach:
  assumes "\<And>x. diffStep (body x)"
  shows "diffStep (forEach body xs)"
proof (induction xs)
  case Nil
  have "forEach body [] = (\<lambda>g. Some g)" by (rule ext) simp
  then show ?case by (simp add: diffStep_Some)
next
  case (Cons x xs)
  have "forEach body (x # xs) = (\<lambda>g. Option.bind (body x g) (forEach body xs))"
    by (rule ext) (simp split: option.splits)
  with diffStep_seq [OF assms [of x] Cons.IH] show ?case by simp
qed

lemma diffStep_if:
  "diffStep f \<Longrightarrow> diffStep h \<Longrightarrow> diffStep (\<lambda>g. if c then f g else h g)"
  by (cases c) simp_all

lemma diffStep_after:
  assumes "diffStep (\<lambda>g. Some (a g))" and "diffStep f"
  shows "diffStep (\<lambda>g. f (a g))"
  using diffStep_seq [OF assms] by simp

lemma diffStep_optional_loop:
  assumes "\<And>x. diffStep (body x)"
  shows "diffStep (\<lambda>g. case sl of None \<Rightarrow> Some g | Some xs \<Rightarrow> forEach body xs g)"
  by (cases sl) (simp_all add: diffStep_Some diffStep_forEach [OF assms, unfolded])

lemma diffStep_ownerStep: "diffStep (ownerStep source ownerKind ownerRef)"
  unfolding ownerStep_def
  by (intro diffStep_bind diffStep_if diffStep_Add diffStep_Some)

lemma diffStep_volumeStep: "diffStep (volumeStep source volume)"
proof -
  have "diffStep (\<lambda>g. case map_of vol ''configMap'' of
         None \<Rightarrow> Some g
       | Some configMap \<Rightarrow> Option.bind (assertMap configMap) (\<lambda>cm.
           Option.bind (assertString (index cm ''name'')) (\<lambda>configMapName.
             Some (AddRelationship g source
                \<lparr>Name = configMapName, Namespace = Namespace source, Type = ''ConfigMap''\<rparr>
                ''uses'' None))))" for vol
    by (cases "map_of vol ''configMap''")
       (auto intro!: diffStep_bind diffStep_Add diffStep_Some)
  then show ?thesis
    unfolding volumeStep_def by (intro diffStep_bind)
qed

lemma diffStep_servicePodStep: "diffStep (servicePodStep source selector pod)"
  unfolding servicePodStep_def
  by (intro diffStep_bind diffStep_if diffStep_Add diffStep_Remove)

lemma diffStep_runsOn: "diffStep (\<lambda>g. Some (runsOn g source field))"
proof (cases "assertString field")
  case None
  then show ?thesis by (simp add: runsOn_def diffStep_Some)
next
  case (Some nodeName)
  then show ?thesis
    by (cases "nodeName = ''''") (simp_all add: runsOn_def diffStep_Some diffStep_Add)
qed

lemma diffStep_updateRelationships:
  "diffStep (\<lambda>g. updateRelationships g cache obj resourceType name namespace)"
proof -
  have pod: "diffStep (\<lambda>g. Option.bind (assertMap (index obj ''spec'')) (\<lambda>spec.
      Option.bind (assertMap (index obj ''metadata'')) (\<lambda>metadata.
        (case assertSlice (index metadata ''ownerReferences'') of
           None \<Rightarrow> Some (runsOn g (podKey name namespace) (index spec ''nodeName''))
         | Some ownerRefs \<Rightarrow>
             forEach (ownerStep (podKey name namespace) ''ReplicaSet'') ownerRefs
               (runsOn g (podKey name namespace) (index spec ''nodeName''))))))"
  proof (intro diffStep_bind)
    fix spec metadata
    have "diffStep (\<lambda>g. case assertSlice (index metadata ''ownerReferences'') of
           None \<Rightarrow> Some g
         | Some ownerRefs \<Rightarrow>
             forEach (ownerStep (podKey name namespace) ''ReplicaSet'') ownerRefs g)"
      by (rule diffStep_optional_loop) (rule diffStep_ownerStep)
    from diffStep_after [OF diffStep_runsOn this]
    show "diffStep (\<lambda>g. case assertSlice (index metadata ''ownerReferences'') of
           None \<Rightarrow> Some (runsOn g (podKey name namespace) (index spec ''nodeName''))
         | Some ownerRefs \<Rightarrow>
             forEach (ownerStep (podKey name namespace) ''ReplicaSet'') ownerRefs
               (runsOn g (podKey name namespace) (index spec ''nodeName'')))" .
  qed
  have rs: "diffStep (\<lambda>g. Option.bind (assertMap (index obj ''metadata'')) (\<lambda>metadata.
        (case assertSlice (index metadata ''ownerReferences'') of
           None \<Rightarrow> Some g
         | Some ownerRefs \<Rightarrow>
             forEach (ownerStep \<lparr>Name = name, Namespace = namespace, Type = ''ReplicaSet''\<rparr>
                        ''Deployment'') ownerRefs g)))"
    by (intro diffStep_bind diffStep_optional_loop diffStep_ownerStep)
  have svc: "diffStep (\<lambda>g. Option.bind (assertMap (index obj ''spec'')) (\<lambda>spec.
        (case assertMap (index spec ''selector'') of
           None \<Rightarrow> Some g
         | Some selector \<Rightarrow>
             forEach (servicePodStep (serviceKey name namespace) selector)
               (map snd cache) g)))"
  proof (intro diffStep_bind)
    fix spec
    show "diffStep (\<lambda>g. case assertMap (index spec ''selector'') of
           None \<Rightarrow> Some g
         | Some selector \<Rightarrow>
             forEach (servicePodStep (serviceKey name namespace) selector)
               (map snd cache) g)"
      by (cases "assertMap (index spec ''selector'')")
         (simp_all add: diffStep_Some diffStep_forEach [OF diffStep_servicePodStep])
  qed
  have dep: "diffStep (\<lambda>g. Option.bind (assertMap (index obj ''spec'')) (\<lambda>spec.
      Option.bind (assertMap (index spec ''template'')) (\<lambda>template.
        Option.bind (assertMap (index template ''spec'')) (\<lambda>templateSpec.
          (case assertSlice (index templateSpec ''volumes'') of
             None \<Rightarrow> Some g
           | Some volumes \<Rightarrow>
               forEach (volumeStep \<lparr>Name = name, Namespace = namespace, Type = ''Deployment''\<rparr>)
                 volumes g)))))"
    by (intro diffStep_bind diffStep_optional_loop diffStep_volumeStep)
  show ?thesis
    unfolding updateRelationships_def Let_def
    by (intro diffStep_if pod rs svc dep diffStep_Some)
qed

subsection \<open>Adding the same node again\<close>

lemma addNodeLoop_again:
  "addNodeLoop ns node = Some ns' \<Longrightarrow> addNodeLoop ns' node = Some ns'"
  by (induction ns arbitrary: ns') (auto split: if_splits)

lemma addNodeLoop_appended:
  "addNodeLoop ns node = None \<Longrightarrow> addNodeLoop (ns @ [node]) node = Some (ns @ [node])"
  by (induction ns) (auto split: if_splits)

lemma AddNode_again:
  assumes "AddNode g obj = Some g1" and "Nodes h = Nodes g1"
  shows "\<exists>h'. AddNode h obj = Some h' \<and> Nodes h' = Nodes h \<and>
           Relationships h' = Relationships h"
proof (cases "objectToGraphNode obj")
  case None
  with assms(1) show ?thesis by (simp add: AddNode_def)
next
  case (Some r)
  show ?thesis
  proof (cases r)
    case None
    with Some show ?thesis by (simp add: AddNode_def)
  next
    case node: (Some node)
    have "addNodeLoop (Nodes g1) node = Some (Nodes g1)"
    proof (cases "addNodeLoop (Nodes g) node")
      case None
      with assms(1) Some node have "Nodes g1 = Nodes g @ [node]"
        by (auto simp: AddNode_def)
      with None show ?thesis
        by (simp add: addNodeLoop_appended)
    next
      case found: (Some ns')
      with assms(1) Some node have "Nodes g1 = ns'"
        by (auto simp: AddNode_def)
      with found show ?thesis
        by (simp add: addNodeLoop_again)
    qed
    with assms(2) Some node show ?thesis
      by (simp add: AddNode_def)
  qed
qed

lemma cachePut_again: "cachePut k v (cachePut k v c) = cachePut k v c"
  by (induction c) auto

lemma storeInCache_again:
  "podCache (storeInCache rt ns n obj (storeInCache rt ns n obj s\<lparr>graph := g\<rparr>)) =
     podCache (storeInCache rt ns n obj s) \<and>
   serviceCache (storeInCache rt ns n obj (storeInCache rt ns n obj s\<lparr>graph := g\<rparr>)) =
     serviceCache (storeInCache rt ns n obj s)"
  by (simp add: storeInCache_def cachePut_again)

lemma update_ignores_cache:
  "resourceType \<noteq> ''Service'' \<Longrightarrow>
   updateRelationships g cache obj resourceType name namespace =
   updateRelationships g cache' obj resourceType name namespace"
  by (simp add: updateRelationships_def)

lemma podCache_storeInCache:
  "resourceType \<noteq> ''Pod'' \<Longrightarrow>
   podCache (storeInCache resourceType namespace name obj s) = podCache s"
  by (simp add: storeInCache_def)

subsection \<open>The same upsert twice\<close>

lemma diffStep_ops:
  assumes "diffStep f" and "f g = Some g'"
  shows "\<exists>ops. \<forall>h. f h = Some (applyOps ops h)"
proof -
  from assms(1) obtain r where r: "\<And>h. f h = map_option (\<lambda>ops. applyOps ops h) r"
    unfolding diffStep_def by blast
  with assms(2) obtain ops where "r = Some ops" by (cases r) auto
  with r have "\<forall>h. f h = Some (applyOps ops h)" by simp
  then show ?thesis by (rule exI)
qed

lemma upsert_twice:
  assumes D: "distinct (map relIdentity (Relationships (graph s)))"
    and ev: "EventType ev = Added \<or> EventType ev = Modified"
    and run: "processEvent resourceType ev s = Some s1"
  shows "\<exists>s2. processEvent resourceType ev s1 = Some s2 \<and>
           Nodes (graph s2) = Nodes (graph s1) \<and>
           set (map edgeFacts (Relationships (graph s2))) =
             set (map edgeFacts (Relationships (graph s1))) \<and>
           podCache s2 = podCache s1 \<and> serviceCache s2 = serviceCache s1"
proof (cases "Unstructured ev")
  case None
  with run show ?thesis
    by (simp add: processEvent_skipped)
next
  case (Some obj)
  from ev run Some show ?thesis
  proof (rule processEvent_upsert)
    fix metadata name namespace g1 g2
    assume md: "index obj ''metadata'' = JObj metadata"
      and nm: "index metadata ''name'' = JStr name"
      and ns: "namespaceOf metadata = Some namespace"
      and node: "AddNode (graph s) (Object ev) = Some g1"
      and upd: "updateRelationships g1 (podCache s) obj resourceType name namespace = Some g2"
      and s1: "s1 = storeInCache resourceType namespace name obj (s\<lparr>graph := g2\<rparr>)"
    from diffStep_ops [OF diffStep_updateRelationships upd] obtain ops where
      f: "\<And>h. updateRelationships h (podCache s) obj resourceType name namespace =
               Some (applyOps ops h)"
      by blast
    from f [of g1] upd have g2: "g2 = applyOps ops g1"
      by simp
    then have "Nodes g2 = Nodes g1"
      by simp
    from AddNode_again [OF node this] obtain h where
      h: "AddNode g2 (Object ev) = Some h" "Nodes h = Nodes g2"
        "Relationships h = Relationships g2"
      by blast
    have cache: "updateRelationships h (podCache s1) obj resourceType name namespace =
        updateRelationships h (podCache s) obj resourceType name namespace"
    proof (cases "resourceType = ''Service''")
      case True
      with s1 show ?thesis
        by (simp add: podCache_storeInCache)
    next
      case False
      then show ?thesis
        by (rule update_ignores_cache)
    qed
    define s2 where
      "s2 = storeInCache resourceType namespace name obj (s1\<lparr>graph := applyOps ops h\<rparr>)"
    from s1 have g1: "graph s1 = g2"
      by simp
    have step: "processEvent resourceType ev s1 = Some s2"
      using ev Some md nm ns h(1) cache f [of h]
      by (auto simp: processEvent_def UpdateNode_def g1 s2_def)
    from node D have "distinct (map relIdentity (Relationships g1))"
      by (simp add: AddNode_Relationships)
    from applyOps_twice [OF this, of h ops] h(3) g2
    have "set (map edgeFacts (Relationships (applyOps ops h))) =
        set (map edgeFacts (Relationships g2))"
      by simp
    moreover have "Nodes (applyOps ops h) = Nodes g2"
      using h(2) by simp
    moreover have "podCache s2 = podCache s1" "serviceCache s2 = serviceCache s1"
      unfolding s2_def s1 using storeInCache_again by simp_all
    ultimately show ?thesis
      using step g1 by (intro exI [of _ s2]) (simp add: s2_def)
  qed
qed

subsection \<open>No two edges with one identity in a reachable state\<close>

lemma diffStep_distinct:
  assumes "diffStep f" and "f g = Some g'"
    and "distinct (map relIdentity (Relationships g))"
  shows "distinct (map relIdentity (Relationships g'))"
proof -
  from diffStep_ops [OF assms(1,2)] obtain ops where "\<And>h. f h = Some (applyOps ops h)"
    by blast
  from this [of g] assms(2) have "g' = applyOps ops g"
    by simp
  with assms(3) show ?thesis
    by (simp add: applyOps_distinct)
qed

lemma removeIncident_subset: "set (removeIncident rels k) \<subseteq> set rels"
  by (induction rels) auto

lemma removeIncident_distinct:
  "distinct (map relIdentity rels) \<Longrightarrow> distinct (map relIdentity (removeIncident rels k))"
proof (induction rels)
  case Nil
  then show ?case by simp
next
  case (Cons rel rels)
  from Cons.prems have "relIdentity rel \<notin> relIdentity ` set rels"
    by simp
  with removeIncident_subset [of rels k]
  have "relIdentity rel \<notin> relIdentity ` set (removeIncident rels k)"
    by blast
  with Cons show ?case
    by simp
qed

lemma RemoveNode_distinct:
  assumes "RemoveNode g obj = Some g'"
    and "distinct (map relIdentity (Relationships g))"
  shows "distinct (map relIdentity (Relationships g'))"
  using assms
  by (auto simp: RemoveNode_def removeIncident_distinct split: option.splits)

lemma RemoveRelationship_distinct:
  "distinct (map relIdentity (Relationships g)) \<Longrightarrow>
   distinct (map relIdentity (Relationships (RemoveRelationship g s t ty)))"
  by (simp add: RemoveRelationship_identities)

lemma removeResourceLoop_distinct:
  "distinct (map relIdentity (Relationships g)) \<Longrightarrow>
   distinct (map relIdentity (Relationships (removeResourceLoop n i g stale k)))"
  by (induction n arbitrary: i g stale) (simp_all add: Let_def RemoveRelationship_distinct)

lemma processEvent_distinct:
  assumes D: "distinct (map relIdentity (Relationships (graph s)))"
    and run: "processEvent resourceType ev s = Some s'"
  shows "distinct (map relIdentity (Relationships (graph s')))"
proof (cases "Unstructured ev")
  case None
  with run D show ?thesis
    by (simp add: processEvent_skipped)
next
  case (Some obj)
  show ?thesis
  proof (cases "EventType ev")
    case Added
    then have "EventType ev = Added \<or> EventType ev = Modified" by simp
    from this run Some show ?thesis
    proof (rule processEvent_upsert)
      fix name namespace g1 g2
      assume node: "AddNode (graph s) (Object ev) = Some g1"
        and upd: "updateRelationships g1 (podCache s) obj resourceType name namespace = Some g2"
        and s': "s' = storeInCache resourceType namespace name obj (s\<lparr>graph := g2\<rparr>)"
      from node D have "distinct (map relIdentity (Relationships g1))"
        by (simp add: AddNode_Relationships)
      from diffStep_distinct [OF diffStep_updateRelationships upd this] s' show ?thesis
        by simp
    qed
  next
    case Modified
    then have "EventType ev = Added \<or> EventType ev = Modified" by simp
    from this run Some show ?thesis
    proof (rule processEvent_upsert)
      fix name namespace g1 g2
      assume node: "AddNode (graph s) (Object ev) = Some g1"
        and upd: "updateRelationships g1 (podCache s) obj resourceType name namespace = Some g2"
        and s': "s' = storeInCache resourceType namespace name obj (s\<lparr>graph := g2\<rparr>)"
      from node D have "distinct (map relIdentity (Relationships g1))"
        by (simp add: AddNode_Relationships)
      from diffStep_distinct [OF diffStep_updateRelationships upd this] s' show ?thesis
        by simp
    qed
  next
    case Deleted
    with run Some obtain g1 k where "RemoveNode (graph s) (Object ev) = Some g1"
      and "graph s' = removeResourceRelationships g1 k"
      by (auto simp: processEvent_def Option.bind_eq_Some_conv)
    with D show ?thesis
      by (simp add: removeResourceRelationships_def removeResourceLoop_distinct
          RemoveNode_distinct)
  next
    case Bookmark
    with run Some D show ?thesis
      by (auto simp: processEvent_def Option.bind_eq_Some_conv)
  next
    case Error
    with run Some D show ?thesis
      by (auto simp: processEvent_def Option.bind_eq_Some_conv)
  qed
qed

subsection \<open>The initial listing keeps identities distinct\<close>

lemma addNodes_Relationships:
  assumes "addNodes xs g = Some g'"
  shows "Relationships g' = Relationships g"
  using assms unfolding addNodes_def
  by (rule forEach_invariant [where Q = "\<lambda>h. Relationships h = Relationships g"])
     (simp_all add: AddNode_Relationships)

lemma diffStep_conditional_add:
  "diffStep (\<lambda>g. Some (if c then AddRelationship g s t ty None else g))"
  by (cases c) (simp_all add: diffStep_Add diffStep_Some)

lemma diffStep_listPodStep: "diffStep (listPodStep pod)"
proof -
  have "diffStep (\<lambda>g. forEach (ownerStep source ''ReplicaSet'') ownerRefs
          (if c then AddRelationship g source t ''runs_on'' None else g))"
    for source ownerRefs c t
    by (rule diffStep_after [OF diffStep_conditional_add])
       (rule diffStep_forEach [OF diffStep_ownerStep])
  then show ?thesis
    unfolding listPodStep_def by (intro diffStep_bind)
qed

lemma diffStep_listReplicaSetStep: "diffStep (listReplicaSetStep rs)"
  unfolding listReplicaSetStep_def
  by (intro diffStep_bind diffStep_forEach diffStep_ownerStep)

lemma diffStep_listServicePodStep: "diffStep (listServicePodStep source selector pod)"
  unfolding listServicePodStep_def
  by (intro diffStep_bind diffStep_if diffStep_Add diffStep_Some)

lemma diffStep_listServiceStep: "diffStep (listServiceStep pods service)"
  unfolding listServiceStep_def
  by (intro diffStep_bind diffStep_forEach diffStep_listServicePodStep)

lemma diffStep_listDeploymentStep: "diffStep (listDeploymentStep deployment)"
  unfolding listDeploymentStep_def
  by (intro diffStep_bind diffStep_forEach diffStep_volumeStep)

lemma diffStep_createRelationships:
  "diffStep (createRelationships pods replicasets services deployments)"
proof -
  have "diffStep (\<lambda>g. Option.bind (forEach listPodStep pods g) (\<lambda>g1.
          Option.bind (forEach listReplicaSetStep replicasets g1) (\<lambda>g2.
            Option.bind (forEach (listServiceStep pods) services g2)
              (forEach listDeploymentStep deployments))))"
    by (intro diffStep_seq diffStep_forEach diffStep_listPodStep diffStep_listReplicaSetStep
        diffStep_listServiceStep diffStep_listDeploymentStep)
  then show ?thesis
    unfolding createRelationships_def [abs_def] by simp
qed

lemma listAllResources_graph:
  assumes "listAllResources client s = Some (err, s')"
  shows "Relationships (graph s') = Relationships (graph s) \<or>
     (\<exists>pods replicasets services deployments g0.
        Relationships g0 = Relationships (graph s) \<and>
        createRelationships pods replicasets services deployments g0 = Some (graph s'))"
  using assms
  by (cases "ListPods client"; cases "ListReplicaSets client"; cases "ListDeployments client";
      cases "ListNodes client"; cases "ListServices client"; cases "ListConfigMaps client")
     (auto simp: listAllResources_def Let_def Option.bind_eq_Some_conv
        dest!: addNodes_Relationships)

lemma listAllResources_distinct:
  assumes D: "distinct (map relIdentity (Relationships (graph s)))"
    and run: "listAllResources client s = Some (err, s')"
  shows "distinct (map relIdentity (Relationships (graph s')))"
  using listAllResources_graph [OF run]
proof
  assume "Relationships (graph s') = Relationships (graph s)"
  with D show ?thesis by simp
next
  assume "\<exists>pods replicasets services deployments g0.
        Relationships g0 = Relationships (graph s) \<and>
        createRelationships pods replicasets services deployments g0 = Some (graph s')"
  then obtain pods replicasets services deployments g0 where
    g0: "Relationships g0 = Relationships (graph s)" and
    run': "createRelationships pods replicasets services deployments g0 = Some (graph s')"
    by blast
  from g0 D have "distinct (map relIdentity (Relationships g0))"
    by simp
  with diffStep_createRelationships run' show ?thesis
    by (rule diffStep_distinct)
qed

lemma reachable_distinct:
  "reachable s \<Longrightarrow> distinct (map relIdentity (Relationships (graph s)))"
proof (induction rule: reachable.induct)
  case start
  show ?case by (simp add: initial_def NewGraph_def)
next
  case (listed s client err s')
  then show ?case by (simp add: listAllResources_distinct)
next
  case (event s resourceType ev s')
  then show ?case by (simp add: processEvent_distinct)
qed

text \<open>
  Claim C6. In every state the program can reach, when an Added event has been
  processed without a panic, processing the same event again does not panic either,
  leaves the node sequence exactly as it is, and leaves the set of edges as it is: the
  same identity triples (source, target, relationship type) with the same properties.
  The two caches are unchanged as well. What the second application advances is the
  change counters: the graph's revision, and the \<open>Revision\<close> of each edge the event
  derives again, which \<open>AddRelationship\<close> increments as it does for every update.
\<close>

theorem added_twice_is_added_once:
  assumes "reachable s" and "EventType ev = Added"
    and "processEvent resourceType ev s = Some s1"
  shows "\<exists>s2. processEvent resourceType ev s1 = Some s2 \<and>
           Nodes (graph s2) = Nodes (graph s1) \<and>
           set (map edgeFacts (Relationships (graph s2))) =
             set (map edgeFacts (Relationships (graph s1))) \<and>
           podCache s2 = podCache s1 \<and> serviceCache s2 = serviceCache s1"
  using assms by (intro upsert_twice reachable_distinct) simp_all

theorem added_twice_is_added_once_witness:
  "reachable initial \<and>
   processEvent ''Pod''
     (exPodEvent Added ''p1'' [(''app'', JStr ''x'')] ''n1'' [exOwner ''ReplicaSet'' ''rs1''])
     initial \<noteq> None \<and>
   (\<exists>s2. processEvent ''Pod''
       (exPodEvent Added ''p1'' [(''app'', JStr ''x'')] ''n1'' [exOwner ''ReplicaSet'' ''rs1''])
       (the (processEvent ''Pod''
          (exPodEvent Added ''p1'' [(''app'', JStr ''x'')] ''n1'' [exOwner ''ReplicaSet'' ''rs1''])
          initial)) = Some s2 \<and>
      map Key (Nodes (graph s2)) = [exPod] \<and>
      set (map edgeFacts (Relationships (graph s2))) =
        {((exPod, exNode, ''runs_on''), None), ((exPod, exReplicaSet, ''owned_by''), None)})"
proof -
  have start: "reachable initial"
    by (rule reachable.start)
  have "processEvent ''Pod''
     (exPodEvent Added ''p1'' [(''app'', JStr ''x'')] ''n1'' [exOwner ''ReplicaSet'' ''rs1''])
     initial \<noteq> None \<and>
   (\<exists>s2. processEvent ''Pod''
       (exPodEvent Added ''p1'' [(''app'', JStr ''x'')] ''n1'' [exOwner ''ReplicaSet'' ''rs1''])
       (the (processEvent ''Pod''
          (exPodEvent Added ''p1'' [(''app'', JStr ''x'')] ''n1'' [exOwner ''ReplicaSet'' ''rs1''])
          initial)) = Some s2 \<and>
      map Key (Nodes (graph s2)) = [exPod] \<and>
      set (map edgeFacts (Relationships (graph s2))) =
        {((exPod, exNode, ''runs_on''), None), ((exPod, exReplicaSet, ''owned_by''), None)})"
    using added_twice_is_added_once [OF start, of
      "exPodEvent Added ''p1'' [(''app'', JStr ''x'')] ''n1'' [exOwner ''ReplicaSet'' ''rs1'']"
      "''Pod''"
      "the (processEvent ''Pod''
          (exPodEvent Added ''p1'' [(''app'', JStr ''x'')] ''n1'' [exOwner ''ReplicaSet'' ''rs1''])
          initial)"]
    by (simp add: ex_defs initial_def NewGraph_def index_def namespaceOf_def
      podKey_def processEvent_def AddNode_def mkNode_def updateRelationships_def runsOn_def
      ownerStep_def storeInCache_def cacheKey_def AddRelationship_def relMatches_def
      relIdentity_def edgeFacts_def)
  with start show ?thesis
    by (rule conjI)
qed

section \<open>Services and their selectors\<close>

subsection \<open>One pod of the cache\<close>

lemma RemoveRelationship_subset:
  "set (map relIdentity (Relationships (RemoveRelationship g s t ty))) \<subseteq>
   set (map relIdentity (Relationships g))"
  by (simp only: RemoveRelationship_identities set_remove1_subset)

lemma if_Some_eq: "(if P then Some a else Some b) = Some c \<longleftrightarrow> c = (if P then a else b)"
  by auto

lemma servicePodStep_converted:
  assumes "servicePodStep source (map (\<lambda>(k, v). (k, JStr v)) selector) pod g = Some g'"
  shows "\<exists>metadata podName podNamespace podLabels.
     index pod ''metadata'' = JObj metadata \<and> index metadata ''name'' = JStr podName \<and>
     index metadata ''namespace'' = JStr podNamespace \<and>
     labelsOf metadata = Some podLabels \<and>
     g' = (if (\<forall>(k, v) \<in> set selector. index podLabels k = JStr v)
        then AddRelationship g source (podKey podName podNamespace) ''targets'' None
        else RemoveRelationship g source (podKey podName podNamespace) ''targets'')"
  using assms unfolding servicePodStep_def
  by (simp add: Option.bind_eq_Some_conv assertMap_Some assertString_Some
      selectorMatches_converted if_Some_eq)

lemma servicePodStep_new:
  assumes "servicePodStep source (map (\<lambda>(k, v). (k, JStr v)) selector) pod g = Some g'"
    and "i \<in> set (map relIdentity (Relationships g'))"
    and "i \<notin> set (map relIdentity (Relationships g))"
  shows "\<exists>metadata podName podNamespace podLabels.
     index pod ''metadata'' = JObj metadata \<and> index metadata ''name'' = JStr podName \<and>
     index metadata ''namespace'' = JStr podNamespace \<and>
     labelsOf metadata = Some podLabels \<and>
     i = (source, podKey podName podNamespace, ''targets'') \<and>
     (\<forall>(k, v) \<in> set selector. index podLabels k = JStr v)"
proof -
  from servicePodStep_converted [OF assms(1)] obtain metadata podName podNamespace podLabels where
    md: "index pod ''metadata'' = JObj metadata" and nm: "index metadata ''name'' = JStr podName"
    and ns: "index metadata ''namespace'' = JStr podNamespace"
    and lb: "labelsOf metadata = Some podLabels"
    and g': "g' = (if (\<forall>(k, v) \<in> set selector. index podLabels k = JStr v)
        then AddRelationship g source (podKey podName podNamespace) ''targets'' None
        else RemoveRelationship g source (podKey podName podNamespace) ''targets'')"
    by blast
  show ?thesis
  proof (cases "\<forall>(k, v) \<in> set selector. index podLabels k = JStr v")
    case True
    with g' have "g' = AddRelationship g source (podKey podName podNamespace) ''targets'' None"
      by simp
    with assms(2,3) have "i = (source, podKey podName podNamespace, ''targets'')"
      by (simp add: AddRelationship_identities split: if_splits)
    with md nm ns lb True show ?thesis
      by blast
  next
    case False
    with g' have "g' = RemoveRelationship g source (podKey podName podNamespace) ''targets''"
      by simp
    with assms(2,3) RemoveRelationship_subset [of g source "podKey podName podNamespace" "''targets''"]
    show ?thesis
      by blast
  qed
qed

lemma service_loop_new:
  assumes loop: "forEach (servicePodStep source (map (\<lambda>(k, v). (k, JStr v)) selector)) pods g = Some g'"
    and i: "i \<in> set (map relIdentity (Relationships g'))"
    and new: "i \<notin> set (map relIdentity (Relationships g))"
  shows "\<exists>pod metadata podName podNamespace podLabels.
     pod \<in> set pods \<and>
     index pod ''metadata'' = JObj metadata \<and> index metadata ''name'' = JStr podName \<and>
     index metadata ''namespace'' = JStr podNamespace \<and>
     labelsOf metadata = Some podLabels \<and>
     i = (source, podKey podName podNamespace, ''targets'') \<and>
     (\<forall>(k, v) \<in> set selector. index podLabels k = JStr v)"
proof -
  let ?R = "\<exists>pod metadata podName podNamespace podLabels.
     pod \<in> set pods \<and>
     index pod ''metadata'' = JObj metadata \<and> index metadata ''name'' = JStr podName \<and>
     index metadata ''namespace'' = JStr podNamespace \<and>
     labelsOf metadata = Some podLabels \<and>
     i = (source, podKey podName podNamespace, ''targets'') \<and>
     (\<forall>(k, v) \<in> set selector. index podLabels k = JStr v)"
  let ?Q = "\<lambda>h. i \<in> set (map relIdentity (Relationships h)) \<longrightarrow> ?R"
  have "?Q g'"
  proof (rule forEach_invariant [where Q = ?Q, OF loop])
    from new show "?Q g" by simp
  next
    fix pod h h'
    assume pod: "pod \<in> set pods" and Q: "?Q h"
      and step: "servicePodStep source (map (\<lambda>(k, v). (k, JStr v)) selector) pod h = Some h'"
    show "?Q h'"
    proof
      assume in': "i \<in> set (map relIdentity (Relationships h'))"
      show ?R
      proof (cases "i \<in> set (map relIdentity (Relationships h))")
        case True
        with Q show ?thesis by simp
      next
        case False
        from servicePodStep_new [OF step in' False] pod show ?thesis
          by blast
      qed
    qed
  qed
  with i show ?thesis by simp
qed

subsection \<open>A Service event\<close>

lemma index_selectorEntry:
  "map_of others ''selector'' = None \<Longrightarrow>
   index (selectorEntry selector @ others) ''selector'' =
     (if selector = [] then JNull else JObj (map (\<lambda>(k, v). (k, JStr v)) selector))"
  by (simp add: index_def selectorEntry_def)

lemma service_event:
  assumes ev: "EventType ev = Added \<or> EventType ev = Modified"
    and obj: "Unstructured ev = Some obj"
    and md: "index obj ''metadata'' = JObj metadata"
    and nm: "index metadata ''name'' = JStr name"
    and ns: "namespaceOf metadata = Some namespace"
    and spec: "index obj ''spec'' = JObj (selectorEntry selector @ others)"
    and others: "map_of others ''selector'' = None"
    and run: "processEvent ''Service'' ev s = Some s'"
  shows "(selector = [] \<longrightarrow> Relationships (graph s') = Relationships (graph s)) \<and>
     (\<forall>i \<in> set (map relIdentity (Relationships (graph s'))) -
             set (map relIdentity (Relationships (graph s))).
        selector \<noteq> [] \<and>
        (\<exists>key pod podMetadata podName podNamespace podLabels.
           (key, pod) \<in> set (podCache s) \<and>
           index pod ''metadata'' = JObj podMetadata \<and>
           index podMetadata ''name'' = JStr podName \<and>
           index podMetadata ''namespace'' = JStr podNamespace \<and>
           labelsOf podMetadata = Some podLabels \<and>
           i = (serviceKey name namespace, podKey podName podNamespace, ''targets'') \<and>
           (\<forall>(k, v) \<in> set selector. index podLabels k = JStr v)))"
  using ev run obj
proof (rule processEvent_upsert)
  fix metadata' name' namespace' g1 g2
  assume md': "index obj ''metadata'' = JObj metadata'"
    and nm': "index metadata' ''name'' = JStr name'"
    and ns': "namespaceOf metadata' = Some namespace'"
    and node: "AddNode (graph s) (Object ev) = Some g1"
    and upd: "updateRelationships g1 (podCache s) obj ''Service'' name' namespace' = Some g2"
    and s': "s' = storeInCache ''Service'' namespace' name' obj (s\<lparr>graph := g2\<rparr>)"
  from md md' nm nm' ns ns' have same: "name' = name" "namespace' = namespace"
    by simp_all
  from node have g1: "Relationships g1 = Relationships (graph s)"
    by (simp add: AddNode_Relationships)
  from s' have gs': "graph s' = g2"
    by simp
  show ?thesis
  proof (cases "selector = []")
    case True
    with upd spec others have "g2 = g1"
      by (simp add: updateRelationships_def index_selectorEntry)
    with g1 gs' True show ?thesis
      by simp
  next
    case False
    with upd spec others same
    have loop: "forEach (servicePodStep (serviceKey name namespace)
        (map (\<lambda>(k, v). (k, JStr v)) selector)) (map snd (podCache s)) g1 = Some g2"
      by (simp add: updateRelationships_def index_selectorEntry)
    have "selector \<noteq> [] \<and>
        (\<exists>key pod podMetadata podName podNamespace podLabels.
           (key, pod) \<in> set (podCache s) \<and>
           index pod ''metadata'' = JObj podMetadata \<and>
           index podMetadata ''name'' = JStr podName \<and>
           index podMetadata ''namespace'' = JStr podNamespace \<and>
           labelsOf podMetadata = Some podLabels \<and>
           i = (serviceKey name namespace, podKey podName podNamespace, ''targets'') \<and>
           (\<forall>(k, v) \<in> set selector. index podLabels k = JStr v))"
      if "i \<in> set (map relIdentity (Relationships (graph s'))) -
             set (map relIdentity (Relationships (graph s)))" for i
    proof -
      from that gs' g1 have "i \<in> set (map relIdentity (Relationships g2))"
        and "i \<notin> set (map relIdentity (Relationships g1))"
        by simp_all
      from service_loop_new [OF loop this] obtain pod podMetadata podName podNamespace podLabels
        where "pod \<in> set (map snd (podCache s))"
          "index pod ''metadata'' = JObj podMetadata"
          "index podMetadata ''name'' = JStr podName"
          "index podMetadata ''namespace'' = JStr podNamespace"
          "labelsOf podMetadata = Some podLabels"
          "i = (serviceKey name namespace, podKey podName podNamespace, ''targets'')"
          "\<forall>(k, v) \<in> set selector. index podLabels k = JStr v"
        by blast
      moreover from this(1) obtain key where "(key, pod) \<in> set (podCache s)"
        by auto
      ultimately show ?thesis
        using False by blast
    qed
    with False show ?thesis
      by blast
  qed
qed

subsection \<open>The initial listing of the client\<close>

lemma forEach_struct:
  assumes "\<And>g. body (TypedItem OtherObject) g = None"
    and "list_all (\<lambda>x. x = TypedItem OtherObject) xs"
  shows "forEach body xs g = (if xs = [] then Some g else None)"
  using assms by (cases xs) simp_all

lemma struct_steps:
  assumes "list_all (\<lambda>x. x = TypedItem OtherObject) xs"
  shows "forEach cacheItem xs c = (if xs = [] then Some c else None)"
    and "forEach listPodStep xs g = (if xs = [] then Some g else None)"
    and "forEach listReplicaSetStep xs g = (if xs = [] then Some g else None)"
    and "forEach (listServiceStep pods) xs g = (if xs = [] then Some g else None)"
    and "forEach listDeploymentStep xs g = (if xs = [] then Some g else None)"
  using assms
  by (simp_all add: forEach_struct cacheItem_def listPodStep_def listReplicaSetStep_def
      listServiceStep_def listDeploymentStep_def)

lemma client_listing:
  assumes client: "K8sClient client"
    and run: "listAllResources client s = Some (err, s')"
  shows "Relationships (graph s') = Relationships (graph s)"
  using assms
  by (cases "ListPods client"; cases "ListReplicaSets client"; cases "ListDeployments client";
      cases "ListNodes client"; cases "ListServices client"; cases "ListConfigMaps client")
     (auto simp: listAllResources_def Let_def Option.bind_eq_Some_conv K8sClient_def
        structValues_def createRelationships_def struct_steps
        split: if_splits dest!: addNodes_Relationships)

text \<open>
  Claim C4. A selector as the converter writes it matches a label map exactly when every
  pair of the selector is a pair of the label map. A Service whose selector is empty
  reaches \<open>updateRelationships\<close> without a \<open>selector\<close> entry: the two-result assertion
  fails, the loop over the pods is not entered and the event leaves the relationships as
  they are. For any selector, every edge that the graph has after a Service event and
  had not before goes from the service to a pod of the cache whose label map holds every
  pair of the selector, which is then not empty. The initial listing of the client
  derives no relationship: it returns only when no pod, replica set, service or
  deployment is listed.
\<close>

theorem empty_selector_matches_no_pod:
  "selectorMatches (map (\<lambda>(k, v). (k, JStr v)) selector) podLabels =
     Some (\<forall>(k, v) \<in> set selector. index podLabels k = JStr v) \<and>
   ((EventType ev = Added \<or> EventType ev = Modified) \<and> Unstructured ev = Some obj \<and>
    index obj ''metadata'' = JObj metadata \<and> index metadata ''name'' = JStr name \<and>
    namespaceOf metadata = Some namespace \<and>
    index obj ''spec'' = JObj (selectorEntry selector @ others) \<and>
    map_of others ''selector'' = None \<and>
    processEvent ''Service'' ev s = Some s' \<longrightarrow>
      (selector = [] \<longrightarrow> Relationships (graph s') = Relationships (graph s)) \<and>
      (\<forall>i \<in> set (map relIdentity (Relationships (graph s'))) -
              set (map relIdentity (Relationships (graph s))).
         selector \<noteq> [] \<and>
         (\<exists>key pod podMetadata podName podNamespace labels.
            (key, pod) \<in> set (podCache s) \<and>
            index pod ''metadata'' = JObj podMetadata \<and>
            index podMetadata ''name'' = JStr podName \<and>
            index podMetadata ''namespace'' = JStr podNamespace \<and>
            labelsOf podMetadata = Some labels \<and>
            i = (serviceKey name namespace, podKey podName podNamespace, ''targets'') \<and>
            (\<forall>(k, v) \<in> set selector. index labels k = JStr v)))) \<and>
   (K8sClient client \<and> listAllResources client t = Some (err, t') \<longrightarrow>
      Relationships (graph t') = Relationships (graph t))"
  using selectorMatches_converted [of selector podLabels]
    service_event [of ev obj metadata name namespace selector others s s']
    client_listing [of client t err t']
  by blast

theorem empty_selector_matches_no_pod_witness:
  "processEvent ''Pod'' (exPodEvent Added ''p1'' [(''app'', JStr ''x'')] ''n1'' []) initial =
     Some exPodState \<and>
   processEvent ''Service'' (exConvertedService Added ''svc1'' []) exPodState \<noteq> None \<and>
   Relationships (graph (the (processEvent ''Service''
       (exConvertedService Added ''svc1'' []) exPodState))) =
     Relationships (graph exPodState) \<and>
   edges (processEvent ''Service'' (exConvertedService Added ''svc1'' [(''app'', ''x'')])
       exPodState) =
     Some [(exPod, exNode, ''runs_on''), (exService, exPod, ''targets'')] \<and>
   edges (processEvent ''Service'' (exConvertedService Added ''svc1'' [(''app'', ''y'')])
       exPodState) =
     Some [(exPod, exNode, ''runs_on'')] \<and>
   selectorMatches (map (\<lambda>(k, v). (k, JStr v)) [(''app'', ''x'')])
       [(''app'', JStr ''x''), (''tier'', JStr ''web'')] = Some True \<and>
   K8sClient exNodeListing \<and>
   listAllResources exNodeListing exPodState = Some (None, exPodState)"
  using empty_selector_matches_no_pod [where selector = "[]"
      and podLabels = "[(''app'', JStr ''x''), (''tier'', JStr ''web'')]"
      and ev = "exConvertedService Added ''svc1'' []"
      and obj = "[(''metadata'', JObj (exMetadata ''svc1'' [])),
         (''spec'', JObj (selectorEntry [] @ [(''type'', JStr ''ClusterIP'')]))]"
      and metadata = "exMetadata ''svc1'' []" and name = "''svc1''"
      and namespace = "''default''" and others = "[(''type'', JStr ''ClusterIP'')]"
      and s = exPodState
      and s' = "the (processEvent ''Service'' (exConvertedService Added ''svc1'' []) exPodState)"
      and client = exNodeListing and t = exPodState and err = None and t' = exPodState]
    empty_selector_matches_no_pod [where selector = "[(''app'', ''x'')]"
      and podLabels = "[(''app'', JStr ''x''), (''tier'', JStr ''web'')]"
      and ev = "exConvertedService Added ''svc1'' [(''app'', ''x'')]"
      and obj = "[(''metadata'', JObj (exMetadata ''svc1'' [])),
         (''spec'', JObj (selectorEntry [(''app'', ''x'')] @ [(''type'', JStr ''ClusterIP'')]))]"
      and metadata = "exMetadata ''svc1'' []" and name = "''svc1''"
      and namespace = "''default''" and others = "[(''type'', JStr ''ClusterIP'')]"
      and s = exPodState
      and s' = "the (processEvent ''Service''
         (exConvertedService Added ''svc1'' [(''app'', ''x'')]) exPodState)"
      and client = exNodeListing and t = exPodState and err = None and t' = exPodState]
  by (simp add: ex_defs run_defs eval_defs selectorEntry_def K8sClient_def structValues_def initial_def
      NewGraph_def servicePodStep_def labelsOf_def serviceKey_def listAllResources_def
      cacheItem_def addNodes_def createRelationships_def RemoveRelationship_def)

end
